theory Spec2Isabelle
  imports Main "HOL-Library.Sublist" "HOL-Library.Char_ord" "HOL-Library.List_Lexorder"
    "HOL-Library.Multiset"
begin

section \<open>Python strings\<close>

text \<open>
  A Python \<open>str\<close> is modelled as a \<open>string\<close> whose characters are the code points
  0..255; \<open>sorted\<close> on strings is the lexicographic order by code point, which is the
  order of \<open>List_Lexorder\<close> over \<open>Char_ord\<close>.  The functions below are the
  methods of \<open>str\<close> that the analysed modules call.
\<close>

definition py_isspace :: "char \<Rightarrow> bool" where
  \<comment> \<open>\<open>str.isspace\<close>, also the class \<open>\\s\<close> of \<open>re\<close>\<close>
  "py_isspace c = (c \<in> set [CHR 0x09, CHR 0x0A, CHR 0x0B, CHR 0x0C, CHR 0x0D,
      CHR 0x1C, CHR 0x1D, CHR 0x1E, CHR 0x1F, CHR 0x20, CHR 0x85, CHR 0xA0])"

definition py_lower_char :: "char \<Rightarrow> char" where
  "py_lower_char c =
     (let n = (of_char c :: nat)
      in if (65 \<le> n \<and> n \<le> 90) \<or> (192 \<le> n \<and> n \<le> 222 \<and> n \<noteq> 215)
         then char_of (n + 32) else c)"

definition lower :: "string \<Rightarrow> string" where
  "lower s = map py_lower_char s"

definition py_isword :: "char \<Rightarrow> bool" where
  \<comment> \<open>the class \<open>\\w\<close> of \<open>re\<close>: alphanumeric or underscore\<close>
  "py_isword c =
     (let n = (of_char c :: nat)
      in (48 \<le> n \<and> n \<le> 57) \<or> (65 \<le> n \<and> n \<le> 90) \<or> n = 95 \<or> (97 \<le> n \<and> n \<le> 122)
         \<or> n = 170 \<or> n = 178 \<or> n = 179 \<or> n = 181 \<or> n = 185 \<or> n = 186
         \<or> (188 \<le> n \<and> n \<le> 190) \<or> (192 \<le> n \<and> n \<le> 214)
         \<or> (216 \<le> n \<and> n \<le> 246) \<or> (248 \<le> n \<and> n \<le> 255))"

fun py_in :: "string \<Rightarrow> string \<Rightarrow> bool" where
  \<comment> \<open>\<open>sub in s\<close>\<close>
  "py_in sub [] = (sub = [])"
| "py_in sub (c # cs) = (prefix sub (c # cs) \<or> py_in sub cs)"

definition startswith :: "string \<Rightarrow> string \<Rightarrow> bool" where
  "startswith s p = prefix p s"

definition endswith :: "string \<Rightarrow> string \<Rightarrow> bool" where
  "endswith s p = prefix (rev p) (rev s)"

fun split :: "char \<Rightarrow> string \<Rightarrow> string list" where
  \<comment> \<open>\<open>s.split(sep)\<close> for a separator of one character\<close>
  "split sep [] = [[]]"
| "split sep (c # cs) =
     (if c = sep then [] # split sep cs
      else (case split sep cs of [] \<Rightarrow> [[c]] | w # ws \<Rightarrow> (c # w) # ws))"

definition strip :: "string \<Rightarrow> string" where
  "strip s = rev (dropWhile py_isspace (rev (dropWhile py_isspace s)))"

definition rsplit1_head :: "char \<Rightarrow> string \<Rightarrow> string" where
  \<comment> \<open>\<open>s.rsplit(sep, 1)[0]\<close>\<close>
  "rsplit1_head sep s =
     (if sep \<in> set s then rev (tl (dropWhile (\<lambda>c. c \<noteq> sep) (rev s))) else s)"

definition rsplit1_last :: "char \<Rightarrow> string \<Rightarrow> string" where
  \<comment> \<open>\<open>s.rsplit(sep, 1)[-1]\<close>\<close>
  "rsplit1_last sep s = rev (takeWhile (\<lambda>c. c \<noteq> sep) (rev s))"

definition replace_chr :: "char \<Rightarrow> char \<Rightarrow> string \<Rightarrow> string" where
  "replace_chr a b s = map (\<lambda>c. if c = a then b else c) s"

section \<open>The fragment of \<open>re\<close> the patterns use\<close>

text \<open>
  A backtracking matcher: \<open>rx_match\<close> lists, in the order in which \<open>re\<close> tries them,
  the ways a pattern matches at the start of a string, each as the rest of the string and
  the text of group 1.  The first element is the match \<open>re\<close> reports.
\<close>

datatype regex =
    Eps
  | Lit char
  | Cls "char \<Rightarrow> bool"
  | Seq regex regex
  | Star regex
  | LazyStar regex
  | Grp regex

type_synonym rx_state = "string \<times> string option"

fun rx_match :: "bool \<Rightarrow> regex \<Rightarrow> rx_state \<Rightarrow> rx_state list" where
  "rx_match ic Eps st = [st]"
| "rx_match ic (Lit c) (s, g) =
     (case s of [] \<Rightarrow> []
      | d # ds \<Rightarrow> if (if ic then py_lower_char d = py_lower_char c else d = c)
                 then [(ds, g)] else [])"
| "rx_match ic (Cls p) (s, g) =
     (case s of [] \<Rightarrow> [] | d # ds \<Rightarrow> if p d then [(ds, g)] else [])"
| "rx_match ic (Seq a b) st = concat (map (rx_match ic b) (rx_match ic a st))"
| "rx_match ic (Star a) st =
     concat (map (rx_match ic (Star a))
       (filter (\<lambda>st'. length (fst st') < length (fst st)) (rx_match ic a st))) @ [st]"
| "rx_match ic (LazyStar a) st =
     st # concat (map (rx_match ic (LazyStar a))
       (filter (\<lambda>st'. length (fst st') < length (fst st)) (rx_match ic a st)))"
| "rx_match ic (Grp a) (s, g) =
     map (\<lambda>(s', g'). (s', Some (take (length s - length s') s))) (rx_match ic a (s, g))"

definition rx_seq :: "regex list \<Rightarrow> regex" where
  "rx_seq rs = foldr Seq rs Eps"

definition lits :: "string \<Rightarrow> regex" where
  "lits s = rx_seq (map Lit s)"

definition Plus :: "regex \<Rightarrow> regex" where
  "Plus r = Seq r (Star r)"

definition Space :: regex where
  "Space = Cls py_isspace"

definition Quote :: regex where
  \<comment> \<open>the class \<open>['\"]\<close>\<close>
  "Quote = Cls (\<lambda>c. c = CHR 0x27 \<or> c = CHR 0x22)"

definition NotQuote :: regex where
  \<comment> \<open>the class \<open>[^'\"]\<close>\<close>
  "NotQuote = Cls (\<lambda>c. c \<noteq> CHR 0x27 \<and> c \<noteq> CHR 0x22)"

definition Dot :: regex where
  \<comment> \<open>\<open>.\<close> without \<open>re.DOTALL\<close>: any character but the newline\<close>
  "Dot = Cls (\<lambda>c. c \<noteq> CHR 0x0A)"

fun re_search :: "bool \<Rightarrow> regex \<Rightarrow> string \<Rightarrow> bool" where
  \<comment> \<open>whether \<open>re.search(pattern, s)\<close> finds a match; the flag is \<open>re.IGNORECASE\<close>\<close>
  "re_search ic r [] = (rx_match ic r ([], None) \<noteq> [])"
| "re_search ic r (c # cs) = (rx_match ic r (c # cs, None) \<noteq> [] \<or> re_search ic r cs)"

definition re_match_group1 :: "regex \<Rightarrow> string \<Rightarrow> string option" where
  \<comment> \<open>\<open>re.match(pattern, s)\<close> and, when it matches, \<open>.group(1)\<close>; every pattern
      given to it has its group on every path, so a match without a group does not arise\<close>
  "re_match_group1 r s =
     (case rx_match False r (s, None) of [] \<Rightarrow> None | (rest, g) # _ \<Rightarrow> g)"

function re_findall :: "regex \<Rightarrow> string \<Rightarrow> string list" where
  \<comment> \<open>\<open>re.findall(pattern, s)\<close> for a pattern with one group: the group's text at
      every match, scanning left to right without overlap; after a match the scan goes
      on where the match ended (one character on when the match is empty)\<close>
  "re_findall r s =
     (case rx_match False r (s, None) of
        [] \<Rightarrow> (case s of [] \<Rightarrow> [] | c # cs \<Rightarrow> re_findall r cs)
      | (rest, g) # _ \<Rightarrow>
          (case g of None \<Rightarrow> [] | Some m \<Rightarrow> m) #
          (if length rest < length s then re_findall r rest
           else (case s of [] \<Rightarrow> [] | c # cs \<Rightarrow> re_findall r cs)))"
  by pat_completeness auto
termination
  by (relation "measure (\<lambda>(r, s). length s)") auto

section \<open>Dictionaries that keep insertion order\<close>

text \<open>
  A \<open>dict\<close> whose iteration order is observed is an association list with distinct keys:
  assigning to a key that is present replaces its value where it stands, assigning to a
  new key appends it.
\<close>

fun dict_set :: "('k \<times> 'v) list \<Rightarrow> 'k \<Rightarrow> 'v \<Rightarrow> ('k \<times> 'v) list" where
  "dict_set [] k v = [(k, v)]"
| "dict_set ((k', v') # d) k v =
     (if k' = k then (k, v) # d else (k', v') # dict_set d k v)"

definition dict_of :: "('a \<Rightarrow> 'k) \<Rightarrow> ('a \<Rightarrow> 'v) \<Rightarrow> 'a list \<Rightarrow> ('k \<times> 'v) list" where
  \<comment> \<open>the comprehension \<open>{key(x): val(x) for x in xs}\<close>\<close>
  "dict_of key val xs = foldl (\<lambda>d x. dict_set d (key x) (val x)) [] xs"

section \<open>File records\<close>

text \<open>
  A file object is a \<open>dict\<close> from field names to strings; every module reads it with
  \<open>file_obj.get(field, "")\<close>.
\<close>

type_synonym file_obj = "string \<rightharpoonup> string"

definition get_field :: "file_obj \<Rightarrow> string \<Rightarrow> string" where
  "get_field f k = (case f k of None \<Rightarrow> [] | Some v \<Rightarrow> v)"

definition mk_file :: "string \<Rightarrow> string \<Rightarrow> file_obj" where
  \<comment> \<open>the record \<open>{"path": p, "content": c}\<close>\<close>
  "mk_file p c = [''path'' \<mapsto> p, ''content'' \<mapsto> c]"

section \<open>graph/dependency\_graph.py\<close>

record DependencyGraph =
  nodes :: "string set"
  edges :: "string \<rightharpoonup> string set"
  reverse_edges :: "string \<rightharpoonup> string set"

definition empty_graph :: DependencyGraph where
  "empty_graph = \<lparr>nodes = {}, edges = Map.empty, reverse_edges = Map.empty\<rparr>"

definition dd_item :: "('k \<rightharpoonup> 'v set) \<Rightarrow> 'k \<Rightarrow> 'v set \<times> ('k \<rightharpoonup> 'v set)" where
  \<comment> \<open>\<open>d[k]\<close> on a \<open>defaultdict(set)\<close>: a missing key is inserted with the empty set\<close>
  "dd_item d k = (case d k of None \<Rightarrow> ({}, d(k \<mapsto> {})) | Some s \<Rightarrow> (s, d))"

definition dd_get :: "('k \<rightharpoonup> 'v set) \<Rightarrow> 'k \<Rightarrow> 'v set \<Rightarrow> 'v set \<times> ('k \<rightharpoonup> 'v set)" where
  \<comment> \<open>\<open>d.get(k, default)\<close>: the lookup inserts nothing, also on a \<open>defaultdict\<close>\<close>
  "dd_get d k dflt = (case d k of None \<Rightarrow> (dflt, d) | Some s \<Rightarrow> (s, d))"

definition dd_add :: "('k \<rightharpoonup> 'v set) \<Rightarrow> 'k \<Rightarrow> 'v \<Rightarrow> ('k \<rightharpoonup> 'v set)" where
  \<comment> \<open>\<open>d[k].add(v)\<close>\<close>
  "dd_add d k v = (let (s, d') = dd_item d k in d'(k \<mapsto> insert v s))"

definition add_node :: "DependencyGraph \<Rightarrow> string \<Rightarrow> DependencyGraph" where
  "add_node g node = g\<lparr>nodes := insert node (nodes g)\<rparr>"

definition add_edge :: "DependencyGraph \<Rightarrow> string \<Rightarrow> string \<Rightarrow> DependencyGraph" where
  "add_edge g from_node to_node =
     g\<lparr>nodes := insert to_node (insert from_node (nodes g)),
       edges := dd_add (edges g) from_node to_node,
       reverse_edges := dd_add (reverse_edges g) to_node from_node\<rparr>"

text \<open>
  The query methods return their result together with the graph as the call leaves it.
\<close>

definition get_downstream :: "DependencyGraph \<Rightarrow> string \<Rightarrow> string list \<times> DependencyGraph" where
  "get_downstream g node =
     (let (s, d) = dd_get (reverse_edges g) node {}
      in (sorted_list_of_set s, g\<lparr>reverse_edges := d\<rparr>))"

definition get_upstream :: "DependencyGraph \<Rightarrow> string \<Rightarrow> string list \<times> DependencyGraph" where
  "get_upstream g node =
     (let (s, d) = dd_get (edges g) node {}
      in (sorted_list_of_set s, g\<lparr>edges := d\<rparr>))"

definition get_all_nodes :: "DependencyGraph \<Rightarrow> string list \<times> DependencyGraph" where
  "get_all_nodes g = (sorted_list_of_set (nodes g), g)"

definition to_dict :: "DependencyGraph \<Rightarrow> (string list \<times> (string \<rightharpoonup> string list)) \<times> DependencyGraph" where
  \<comment> \<open>the pair is the \<open>"nodes"\<close> and the \<open>"edges"\<close> entry of the returned dictionary\<close>
  "to_dict g =
     ((sorted_list_of_set (nodes g), map_option sorted_list_of_set \<circ> edges g), g)"

definition python_import_patterns :: "regex list" where
  "python_import_patterns =
     [rx_seq [lits ''import'', Plus Space, Grp (Plus (Cls (\<lambda>c. py_isword c \<or> c = CHR ''.'')))],
      rx_seq [lits ''from'', Plus Space, Grp (Plus (Cls (\<lambda>c. py_isword c \<or> c = CHR ''.''))),
              Plus Space, lits ''import'']]"

fun first_group :: "regex list \<Rightarrow> string \<Rightarrow> string option" where
  \<comment> \<open>the inner loop over the patterns, left at the first one that matches\<close>
  "first_group [] line = None"
| "first_group (p # ps) line =
     (case re_match_group1 p line of Some m \<Rightarrow> Some m | None \<Rightarrow> first_group ps line)"

definition python_import_candidates :: "string \<Rightarrow> string list" where
  \<comment> \<open>the list \<open>imports\<close> of \<open>_extract_python_imports\<close> before it is made a set\<close>
  "python_import_candidates content =
     concat (map (\<lambda>line. case first_group python_import_patterns (strip line) of
                            None \<Rightarrow> []
                          | Some module \<Rightarrow> [hd (split (CHR ''.'') module)])
                 (split (CHR 0x0A) content))"

definition extract_python_imports :: "string \<Rightarrow> string list" where
  \<comment> \<open>\<open>list(set(imports))\<close>: the distinct candidates, in one of the orders Python may
      give them\<close>
  "extract_python_imports content = remdups (python_import_candidates content)"

definition js_import_patterns :: "regex list" where
  "js_import_patterns =
     [rx_seq [lits ''import'', Plus Space, LazyStar Dot, lits ''from'', Plus Space,
              Quote, Grp (Plus NotQuote), Quote],
      rx_seq [lits ''require'', Star Space, Lit (CHR ''(''), Quote, Grp (Plus NotQuote),
              Quote, Lit (CHR '')'')],
      rx_seq [lits ''import'', Star Space, Lit (CHR ''(''), Quote, Grp (Plus NotQuote),
              Quote, Lit (CHR '')'')]]"

definition js_package :: "string \<Rightarrow> string" where
  "js_package m =
     (let parts = split (CHR ''/'') m; package = hd parts
      in if startswith package ''@'' \<and> CHR ''/'' \<in> set m
         then hd parts @ ''/'' @ hd (tl parts) else package)"

definition js_import_candidates :: "string \<Rightarrow> string list" where
  "js_import_candidates content =
     concat (map (\<lambda>pattern.
         map js_package
           (filter (\<lambda>m. \<not> startswith m ''.'' \<and> \<not> startswith m ''/'')
                   (re_findall pattern content)))
       js_import_patterns)"

definition extract_js_imports :: "string \<Rightarrow> string list" where
  "extract_js_imports content = remdups (js_import_candidates content)"

definition normalize_path :: "string \<Rightarrow> string" where
  "normalize_path file_path =
     replace_chr (CHR ''/'') (CHR ''.'')
       (if CHR ''.'' \<in> set file_path then rsplit1_head (CHR ''.'') file_path else file_path)"

fun partial_match :: "string \<Rightarrow> (string \<times> string) list \<Rightarrow> string option" where
  "partial_match import_name [] = None"
| "partial_match import_name ((norm_path, orig_path) # rest) =
     (if py_in import_name norm_path \<or> endswith norm_path import_name then Some orig_path
      else partial_match import_name rest)"

definition resolve_import_to_file :: "string \<Rightarrow> string list \<Rightarrow> string option" where
  "resolve_import_to_file import_name all_files =
     (let normalized_files = dict_of normalize_path (\<lambda>f. f) all_files
      in if import_name \<in> set (map snd normalized_files) then Some import_name
         else (case map_of normalized_files import_name of
                 Some f \<Rightarrow> Some f
               | None \<Rightarrow> partial_match import_name normalized_files))"

definition imports_of :: "string \<Rightarrow> string \<Rightarrow> string list" where
  "imports_of file_path content =
     (if endswith file_path ''.py'' then extract_python_imports content
      else if endswith file_path ''.js'' \<or> endswith file_path ''.jsx''
              \<or> endswith file_path ''.ts'' \<or> endswith file_path ''.tsx''
           then extract_js_imports content
      else [])"

definition add_import :: "string list \<Rightarrow> string \<Rightarrow> DependencyGraph \<Rightarrow> string \<Rightarrow> DependencyGraph" where
  \<comment> \<open>the body of the loop over the imports of one file\<close>
  "add_import all_file_paths file_path g import_name =
     (case resolve_import_to_file import_name all_file_paths of
        None \<Rightarrow> g
      | Some resolved_file \<Rightarrow>
          if resolved_file \<noteq> [] \<and> resolved_file \<noteq> file_path
          then add_edge g file_path resolved_file else g)"

definition process_file :: "string list \<Rightarrow> DependencyGraph \<Rightarrow> file_obj \<Rightarrow> DependencyGraph" where
  \<comment> \<open>the body of the loop over the files\<close>
  "process_file all_file_paths g file_obj =
     (let file_path = get_field file_obj ''path''; content = get_field file_obj ''content''
      in if file_path = [] \<or> content = [] then g
         else foldl (add_import all_file_paths file_path) (add_node g file_path)
                (imports_of file_path content))"

definition build_dependency_graph :: "file_obj list \<Rightarrow> DependencyGraph" where
  "build_dependency_graph files =
     foldl (process_file (map (\<lambda>f. get_field f ''path'') files)) empty_graph files"

text \<open>What the two edge maps hold for a node, and the invariant the builder keeps.\<close>

definition ups :: "DependencyGraph \<Rightarrow> string \<Rightarrow> string set" where
  "ups g a = (case edges g a of None \<Rightarrow> {} | Some s \<Rightarrow> s)"

definition downs :: "DependencyGraph \<Rightarrow> string \<Rightarrow> string set" where
  "downs g b = (case reverse_edges g b of None \<Rightarrow> {} | Some s \<Rightarrow> s)"

definition graph_inv :: "DependencyGraph \<Rightarrow> bool" where
  "graph_inv g =
     ((\<forall>a b. b \<in> ups g a \<longleftrightarrow> a \<in> downs g b) \<and>
      (\<forall>a. finite (ups g a) \<and> finite (downs g a) \<and> a \<notin> ups g a) \<and>
      finite (nodes g) \<and>
      dom (edges g) \<subseteq> nodes g \<and> dom (reverse_edges g) \<subseteq> nodes g)"

section \<open>analysis/stack\_detector.py\<close>

record patterns =
  pat_imports :: "string list option"
  pat_files :: "string list option"
  pat_dependencies :: "string list option"

definition FRAMEWORK_PATTERNS :: "(string \<times> patterns) list" where
  "FRAMEWORK_PATTERNS =
    [(''Flask'', \<lparr>pat_imports = Some [''flask'', ''from flask''],
                 pat_files = Some [''app.py'', ''wsgi.py''],
                 pat_dependencies = Some [''flask'']\<rparr>),
     (''Django'', \<lparr>pat_imports = Some [''django'', ''from django''],
                  pat_files = Some [''manage.py'', ''settings.py'', ''wsgi.py''],
                  pat_dependencies = Some [''django'']\<rparr>),
     (''FastAPI'', \<lparr>pat_imports = Some [''fastapi'', ''from fastapi''], pat_files = None,
                   pat_dependencies = Some [''fastapi'']\<rparr>),
     (''Tornado'', \<lparr>pat_imports = Some [''tornado'', ''from tornado''], pat_files = None,
                   pat_dependencies = Some [''tornado'']\<rparr>),
     (''Express'', \<lparr>pat_imports = Some [''express'', ''require('' @ [CHR 0x27] @ ''express'' @ [CHR 0x27] @ '')'',
                                    ''require('' @ [CHR 0x22] @ ''express'' @ [CHR 0x22] @ '')''],
                   pat_files = None, pat_dependencies = Some [''express'']\<rparr>),
     (''NestJS'', \<lparr>pat_imports = Some [''@nestjs'', ''from '' @ [CHR 0x27] @ ''@nestjs''],
                  pat_files = Some [''nest-cli.json''],
                  pat_dependencies = Some [''@nestjs/core'', ''@nestjs/common'']\<rparr>),
     (''Koa'', \<lparr>pat_imports = Some [''koa'', ''require('' @ [CHR 0x27] @ ''koa'' @ [CHR 0x27] @ '')'',
                               ''require('' @ [CHR 0x22] @ ''koa'' @ [CHR 0x22] @ '')''],
               pat_files = None, pat_dependencies = Some [''koa'']\<rparr>),
     (''Hapi'', \<lparr>pat_imports = Some [''@hapi/hapi'',
                                ''require('' @ [CHR 0x27] @ ''@hapi/hapi'' @ [CHR 0x27] @ '')''],
                pat_files = None, pat_dependencies = Some [''@hapi/hapi'']\<rparr>),
     (''React'', \<lparr>pat_imports = Some [''react'', ''from '' @ [CHR 0x27] @ ''react'' @ [CHR 0x27],
                                 ''from '' @ [CHR 0x22] @ ''react'' @ [CHR 0x22]],
                 pat_files = None, pat_dependencies = Some [''react'', ''react-dom'']\<rparr>),
     (''Next.js'', \<lparr>pat_imports = None, pat_files = Some [''next.config.js'', ''next.config.ts''],
                   pat_dependencies = Some [''next'']\<rparr>),
     (''Vue'', \<lparr>pat_imports = Some [''vue'', ''from '' @ [CHR 0x27] @ ''vue'' @ [CHR 0x27],
                               ''from '' @ [CHR 0x22] @ ''vue'' @ [CHR 0x22]],
               pat_files = Some [''vue.config.js''], pat_dependencies = Some [''vue'']\<rparr>),
     (''Angular'', \<lparr>pat_imports = Some [''@angular'', ''from '' @ [CHR 0x27] @ ''@angular''],
                   pat_files = Some [''angular.json''], pat_dependencies = Some [''@angular/core'']\<rparr>),
     (''Svelte'', \<lparr>pat_imports = None, pat_files = Some [''svelte.config.js''],
                  pat_dependencies = Some [''svelte'']\<rparr>),
     (''PyTorch'', \<lparr>pat_imports = Some [''torch'', ''import torch'', ''from torch''], pat_files = None,
                   pat_dependencies = Some [''torch'', ''pytorch'']\<rparr>),
     (''TensorFlow'', \<lparr>pat_imports = Some [''tensorflow'', ''import tensorflow'', ''from tensorflow''],
                      pat_files = None, pat_dependencies = Some [''tensorflow'', ''tensorflow-gpu'']\<rparr>),
     (''Scikit-learn'', \<lparr>pat_imports = Some [''sklearn'', ''from sklearn''], pat_files = None,
                        pat_dependencies = Some [''scikit-learn'']\<rparr>)]"

definition check_imports :: "string \<Rightarrow> string list \<Rightarrow> bool" where
  "check_imports content pats = list_ex (\<lambda>pattern. py_in (lower pattern) (lower content)) pats"

definition check_dependencies :: "string \<Rightarrow> string \<Rightarrow> string list \<Rightarrow> bool" where
  "check_dependencies file_path content pats =
     (if py_in ''requirements.txt'' file_path
         \<and> list_ex (\<lambda>pattern. py_in (lower pattern) (lower content)) pats then True
      else if py_in ''pyproject.toml'' file_path
         \<and> list_ex (\<lambda>pattern. py_in (lower pattern) (lower content)) pats then True
      else if py_in ''package.json'' file_path
         \<and> list_ex (\<lambda>pattern. py_in ([CHR 0x22] @ pattern @ [CHR 0x22]) content
                              \<or> py_in ([CHR 0x27] @ pattern @ [CHR 0x27]) content) pats then True
      else False)"

fun framework_fires :: "patterns \<Rightarrow> file_obj list \<Rightarrow> bool" where
  \<comment> \<open>the loop over the files for one framework: whether it adds the framework to
      \<open>detected\<close>.  The first two checks leave the loop; after a file-name match the loop
      goes on, and adding the name again changes nothing\<close>
  "framework_fires pats [] = False"
| "framework_fires pats (file_obj # rest) =
     (let path = get_field file_obj ''path''; content = get_field file_obj ''content''
      in if (case pat_imports pats of None \<Rightarrow> False | Some ps \<Rightarrow> check_imports content ps) then True
         else if (case pat_dependencies pats of None \<Rightarrow> False
                  | Some ps \<Rightarrow> check_dependencies path content ps) then True
         else if (case pat_files pats of None \<Rightarrow> False
                  | Some ps \<Rightarrow> list_ex (\<lambda>file_pattern. py_in file_pattern path) ps) then True
         else framework_fires pats rest)"

definition detect_frameworks :: "file_obj list \<Rightarrow> string list" where
  "detect_frameworks fs =
     sorted_list_of_set
       (set (map fst (filter (\<lambda>(framework, pats). framework_fires pats fs) FRAMEWORK_PATTERNS)))"

section \<open>analysis/entrypoint\_finder.py\<close>

definition ENTRYPOINT_FILES :: "(string \<times> string list) list" where
  "ENTRYPOINT_FILES =
    [(''Python'', [''main.py'', ''app.py'', ''wsgi.py'', ''asgi.py'', ''run.py'', ''__main__.py'']),
     (''JavaScript'', [''index.js'', ''server.js'', ''app.js'', ''main.js'']),
     (''TypeScript'', [''index.ts'', ''server.ts'', ''app.ts'', ''main.ts'']),
     (''Go'', [''main.go'']),
     (''Java'', [''Main.java'', ''Application.java'']),
     (''Rust'', [''main.rs''])]"

definition FRAMEWORK_ENTRYPOINT_PATTERNS :: "(string \<times> regex list) list" where
  "FRAMEWORK_ENTRYPOINT_PATTERNS =
    [(''Flask'',
       [rx_seq [lits ''app'', Star Space, lits ''='', Star Space, lits ''Flask(''],
        lits ''@app.route('',
        rx_seq [lits ''if'', Plus Space, lits ''__name__'', Star Space, lits ''=='', Star Space,
                Quote, lits ''__main__'', Quote, Star Dot, lits ''app.run('']]),
     (''FastAPI'',
       [rx_seq [lits ''app'', Star Space, lits ''='', Star Space, lits ''FastAPI(''],
        lits ''@app.get('',
        lits ''@app.post('',
        lits ''uvicorn.run('']),
     (''Django'',
       [lits ''DJANGO_SETTINGS_MODULE'',
        rx_seq [lits ''from'', Plus Space, lits ''django.core.wsgi'', Plus Space, lits ''import'',
                Plus Space, lits ''get_wsgi_application''],
        rx_seq [lits ''from'', Plus Space, lits ''django.core.asgi'', Plus Space, lits ''import'',
                Plus Space, lits ''get_asgi_application'']]),
     (''Express'',
       [lits ''express()'',
        lits ''app.listen('',
        rx_seq [lits ''const'', Plus Space, lits ''app'', Star Space, lits ''='', Star Space,
                lits ''express(''],
        rx_seq [lits ''var'', Plus Space, lits ''app'', Star Space, lits ''='', Star Space,
                lits ''express('']]),
     (''NestJS'',
       [lits ''NestFactory.create'',
        lits ''@Module('',
        lits ''bootstrap()''])]"

definition check_framework_patterns :: "string \<Rightarrow> string \<Rightarrow> bool" where
  "check_framework_patterns content framework =
     (case map_of FRAMEWORK_ENTRYPOINT_PATTERNS framework of
        None \<Rightarrow> False
      | Some pats \<Rightarrow> list_ex (\<lambda>pattern. re_search True pattern content) pats)"

definition extract_docker_entrypoints :: "string \<Rightarrow> string list" where
  "extract_docker_entrypoints content =
     concat (map (\<lambda>l. let line = strip l
                       in (if startswith line ''CMD'' then [line] else []) @
                          (if startswith line ''ENTRYPOINT'' then [line] else []))
                 (split (CHR 0x0A) content))"

record application_file =
  app_path :: string
  app_type :: string
  app_filename :: string

record framework_entrypoint =
  fw_path :: string
  fw_framework :: string

record docker_entrypoint =
  docker_path :: string
  docker_command :: string

record entrypoints =
  application_files :: "application_file list"
  framework_entrypoints :: "framework_entrypoint list"
  docker_entrypoints :: "docker_entrypoint list"

definition file_name :: "string \<Rightarrow> string" where
  "file_name path = (if CHR ''/'' \<in> set path then last (split (CHR ''/'') path) else path)"

definition application_candidates :: "file_obj \<Rightarrow> application_file list" where
  \<comment> \<open>what one file appends to \<open>result["application_files"]\<close>\<close>
  "application_candidates file_obj =
     (let path = get_field file_obj ''path''; filename = file_name path
      in map (\<lambda>(language, entrypoint_files).
                \<lparr>app_path = path, app_type = language, app_filename = filename\<rparr>)
             (filter (\<lambda>(language, entrypoint_files). filename \<in> set entrypoint_files)
                     ENTRYPOINT_FILES))"

definition framework_candidates :: "file_obj \<Rightarrow> framework_entrypoint list" where
  \<comment> \<open>what one file appends to \<open>result["framework_entrypoints"]\<close>\<close>
  "framework_candidates file_obj =
     (let path = get_field file_obj ''path''; content = get_field file_obj ''content''
      in map (\<lambda>framework. \<lparr>fw_path = path, fw_framework = framework\<rparr>)
             (filter (\<lambda>framework. check_framework_patterns content framework)
                     (map fst FRAMEWORK_ENTRYPOINT_PATTERNS)))"

definition docker_candidates :: "file_obj \<Rightarrow> docker_entrypoint list" where
  \<comment> \<open>what one file appends to \<open>result["docker_entrypoints"]\<close>\<close>
  "docker_candidates file_obj =
     (let path = get_field file_obj ''path''; content = get_field file_obj ''content'';
          filename = file_name path
      in if filename = ''Dockerfile'' \<or> py_in ''Dockerfile'' path
         then map (\<lambda>entry. \<lparr>docker_path = path, docker_command = entry\<rparr>)
                  (extract_docker_entrypoints content)
         else [])"

definition collect_entrypoints :: "file_obj list \<Rightarrow> entrypoints" where
  \<comment> \<open>\<open>result\<close> when the loop over the files is left, before the duplicates are removed\<close>
  "collect_entrypoints fs =
     foldl (\<lambda>result file_obj.
              \<lparr>application_files = application_files result @ application_candidates file_obj,
               framework_entrypoints = framework_entrypoints result @ framework_candidates file_obj,
               docker_entrypoints = docker_entrypoints result @ docker_candidates file_obj\<rparr>)
           \<lparr>application_files = [], framework_entrypoints = [], docker_entrypoints = []\<rparr> fs"

definition dedup_by :: "('a \<Rightarrow> string) \<Rightarrow> 'a list \<Rightarrow> 'a list" where
  \<comment> \<open>\<open>list({f["path"]: f for f in xs}.values())\<close>\<close>
  "dedup_by key xs = map snd (dict_of key (\<lambda>f. f) xs)"

definition find_entrypoints :: "file_obj list \<Rightarrow> entrypoints" where
  "find_entrypoints fs =
     (let result = collect_entrypoints fs
      in result\<lparr>application_files := dedup_by app_path (application_files result),
                framework_entrypoints := dedup_by fw_path (framework_entrypoints result)\<rparr>)"

definition directive_lines :: "string \<Rightarrow> string list" where
  \<comment> \<open>the stripped lines of a file that begin with \<open>CMD\<close> or \<open>ENTRYPOINT\<close>\<close>
  "directive_lines content =
     filter (\<lambda>line. startswith line ''CMD'' \<or> startswith line ''ENTRYPOINT'')
       (map strip (split (CHR 0x0A) content))"

definition entry_example :: "file_obj list" where
  \<comment> \<open>a file that matches the patterns of two frameworks, a Dockerfile with two
      directives, and a second record of the first path\<close>
  "entry_example =
     [mk_file ''srv/app.py'' ''app = Flask(__name__)\<newline>uvicorn.run(app)'',
      mk_file ''Dockerfile'' ''FROM python\<newline>ENTRYPOINT python\<newline>  CMD app.py'',
      mk_file ''srv/app.py'' ''x = 1'']"

definition flask_scenario :: "string \<Rightarrow> string \<Rightarrow> file_obj list" where
  "flask_scenario c r = [mk_file ''src/app.py'' c, mk_file ''requirements.txt'' r]"

section \<open>analysis/structure\_analyzer.py\<close>

definition FOLDER_NAMES :: "(string \<times> string list) list" where
  \<comment> \<open>the \<open>"names"\<close> entries of \<open>FOLDER_PATTERNS\<close>, in the order of the dictionary\<close>
  "FOLDER_NAMES =
    [(''frontend'', [''frontend'', ''client'', ''web'', ''ui'', ''app'', ''public'', ''static'', ''assets'']),
     (''backend'', [''backend'', ''server'', ''api'', ''services'', ''core'', ''src/api'', ''app/api'']),
     (''config'', [''config'', ''configuration'', ''settings'', ''env'']),
     (''infrastructure'', [''infra'', ''infrastructure'', ''deploy'', ''deployment'', ''k8s'',
                           ''kubernetes'', ''docker'', ''.github'', ''.gitlab'']),
     (''scripts'', [''scripts'', ''bin'', ''tools'', ''utils'', ''utilities'']),
     (''tests'', [''tests'', ''test'', ''__tests__'', ''spec'', ''specs'']),
     (''docs'', [''docs'', ''documentation'', ''doc'']),
     (''database'', [''database'', ''db'', ''migrations'', ''seeds'', ''fixtures''])]"

definition FRONTEND_FRAMEWORKS :: "string list" where
  \<comment> \<open>\<open>FOLDER_PATTERNS["frontend"]["frameworks"]\<close>\<close>
  "FRONTEND_FRAMEWORKS = [''components'', ''pages'', ''views'', ''styles'', ''hooks'']"

definition BACKEND_FRAMEWORKS :: "string list" where
  \<comment> \<open>\<open>FOLDER_PATTERNS["backend"]["frameworks"]\<close>\<close>
  "BACKEND_FRAMEWORKS = [''routes'', ''controllers'', ''models'', ''middleware'', ''handlers'']"

definition FRONTEND_EXTENSIONS :: "string set" where
  "FRONTEND_EXTENSIONS = {''.jsx'', ''.tsx'', ''.vue'', ''.svelte'', ''.html'', ''.css'', ''.scss'', ''.sass''}"

definition BACKEND_EXTENSIONS :: "string set" where
  "BACKEND_EXTENSIONS = {''.py'', ''.go'', ''.java'', ''.rs'', ''.rb'', ''.php''}"

definition CONFIG_EXTENSIONS :: "string set" where
  "CONFIG_EXTENSIONS = {''.yaml'', ''.yml'', ''.json'', ''.toml'', ''.ini'', ''.env'', ''.config''}"

definition SCRIPT_EXTENSIONS :: "string set" where
  "SCRIPT_EXTENSIONS = {''.sh'', ''.bash'', ''.zsh'', ''.ps1''}"

definition get_folder_from_path :: "string \<Rightarrow> string" where
  "get_folder_from_path path =
     (if CHR ''/'' \<notin> set path then [] else hd (split (CHR ''/'') path))"

fun classify_by_name_loop :: "(string \<times> string list) list \<Rightarrow> string \<Rightarrow> string" where
  "classify_by_name_loop [] folder_lower = ''misc''"
| "classify_by_name_loop ((category, names) # rest) folder_lower =
     (if list_ex (\<lambda>name_pattern. py_in name_pattern folder_lower) names then category
      else classify_by_name_loop rest folder_lower)"

definition classify_by_name :: "string \<Rightarrow> string" where
  "classify_by_name folder = classify_by_name_loop FOLDER_NAMES (lower folder)"

definition extension_of :: "string \<Rightarrow> string" where
  \<comment> \<open>\<open>"." + path.rsplit(".", 1)[-1] if "." in path else ""\<close>\<close>
  "extension_of path =
     (if CHR ''.'' \<in> set path then ''.'' @ rsplit1_last (CHR ''.'') path else [])"

definition has_segment :: "string list \<Rightarrow> string \<Rightarrow> bool" where
  \<comment> \<open>whether one of the patterns is a segment of the lower-cased path\<close>
  "has_segment pats path_lower =
     list_ex (\<lambda>pattern. py_in (''/'' @ pattern @ ''/'') path_lower
                        \<or> endswith path_lower (''/'' @ pattern)) pats"

record content_counts =
  frontend_count :: nat
  backend_count :: nat
  config_count :: nat
  script_count :: nat
  has_frontend_patterns :: bool
  has_backend_patterns :: bool

definition count_file :: "content_counts \<Rightarrow> file_obj \<Rightarrow> content_counts" where
  \<comment> \<open>the body of the loop over the files of the folder\<close>
  "count_file cs file_obj =
     (let path = get_field file_obj ''path''; extension = extension_of path;
          path_lower = lower path
      in \<lparr>frontend_count = frontend_count cs + (if extension \<in> FRONTEND_EXTENSIONS then 1 else 0),
          backend_count = backend_count cs + (if extension \<in> BACKEND_EXTENSIONS then 1 else 0),
          config_count = config_count cs + (if extension \<in> CONFIG_EXTENSIONS then 1 else 0),
          script_count = script_count cs + (if extension \<in> SCRIPT_EXTENSIONS then 1 else 0),
          has_frontend_patterns =
            (has_frontend_patterns cs \<or> has_segment FRONTEND_FRAMEWORKS path_lower),
          has_backend_patterns =
            (has_backend_patterns cs \<or> has_segment BACKEND_FRAMEWORKS path_lower)\<rparr>)"

definition files_under :: "string \<Rightarrow> file_obj list \<Rightarrow> file_obj list" where
  \<comment> \<open>\<open>[f for f in files if f.get("path", "").startswith(folder + "/")]\<close>\<close>
  "files_under folder fs =
     filter (\<lambda>f. startswith (get_field f ''path'') (folder @ ''/'')) fs"

definition count_folder :: "file_obj list \<Rightarrow> content_counts" where
  "count_folder folder_files =
     foldl count_file
       \<lparr>frontend_count = 0, backend_count = 0, config_count = 0, script_count = 0,
        has_frontend_patterns = False, has_backend_patterns = False\<rparr> folder_files"

definition classify_by_content :: "string \<Rightarrow> file_obj list \<Rightarrow> string" where
  \<comment> \<open>\<open>n > len(folder_files) * 0.5\<close> compares an integer with a float that is exact
      for every length a list can have; it is \<open>2 * n > len(folder_files)\<close>\<close>
  "classify_by_content folder fs =
     (let folder_files = files_under folder fs
      in if folder_files = [] then ''misc''
         else let cs = count_folder folder_files
              in if has_frontend_patterns cs
                    \<or> (frontend_count cs > backend_count cs \<and> frontend_count cs > 2)
                 then ''frontend''
                 else if has_backend_patterns cs
                    \<or> (backend_count cs > frontend_count cs \<and> backend_count cs > 2)
                 then ''backend''
                 else if 2 * config_count cs > length folder_files then ''config''
                 else if 2 * script_count cs > length folder_files then ''scripts''
                 else ''misc'')"

record folder_classification =
  role :: string
  file_count :: nat

definition folders_of :: "file_obj list \<Rightarrow> string set" where
  \<comment> \<open>the set \<open>folders\<close> after the first loop\<close>
  "folders_of fs =
     set (filter (\<lambda>folder. folder \<noteq> [])
            (map (\<lambda>f. get_folder_from_path (get_field f ''path'')) fs))"

definition classify_folder :: "file_obj list \<Rightarrow> string \<Rightarrow> folder_classification" where
  \<comment> \<open>the body of the loop over the sorted folders\<close>
  "classify_folder fs folder =
     (let name_classification = classify_by_name folder;
          classification = (if name_classification = ''misc'' then classify_by_content folder fs
                            else name_classification)
      in \<lparr>role = classification, file_count = length (files_under folder fs)\<rparr>)"

definition classify_folders :: "file_obj list \<Rightarrow> (string \<times> folder_classification) list" where
  \<comment> \<open>the returned dictionary, its keys in the order they are inserted\<close>
  "classify_folders fs =
     map (\<lambda>folder. (folder, classify_folder fs folder)) (sorted_list_of_set (folders_of fs))"

section \<open>analysis/language\_detector.py\<close>

definition EXTENSION_TO_LANGUAGE :: "(string \<times> string) list" where
  "EXTENSION_TO_LANGUAGE =
    [(''.py'', ''Python''), (''.pyx'', ''Python''), (''.pyi'', ''Python''),
     (''.js'', ''JavaScript''), (''.jsx'', ''JavaScript''), (''.mjs'', ''JavaScript''),
     (''.cjs'', ''JavaScript''), (''.ts'', ''TypeScript''), (''.tsx'', ''TypeScript''),
     (''.java'', ''Java''), (''.go'', ''Go''), (''.rs'', ''Rust''),
     (''.c'', ''C''), (''.h'', ''C''), (''.cpp'', ''C++''), (''.cc'', ''C++''), (''.cxx'', ''C++''),
     (''.hpp'', ''C++''), (''.hh'', ''C++''), (''.hxx'', ''C++''), (''.cs'', ''C#''),
     (''.html'', ''HTML''), (''.htm'', ''HTML''), (''.css'', ''CSS''), (''.scss'', ''SCSS''),
     (''.sass'', ''SCSS''), (''.less'', ''CSS''),
     (''.sh'', ''Shell''), (''.bash'', ''Shell''), (''.zsh'', ''Shell''),
     (''.yaml'', ''YAML''), (''.yml'', ''YAML''), (''.json'', ''JSON''), (''.xml'', ''XML''),
     (''.toml'', ''TOML''), (''.rb'', ''Ruby''), (''.php'', ''PHP''), (''.swift'', ''Swift''),
     (''.kt'', ''Kotlin''), (''.kts'', ''Kotlin''), (''.scala'', ''Scala''),
     (''.r'', ''R''), (''.R'', ''R''), (''.sql'', ''SQL''),
     (''.md'', ''Markdown''), (''.markdown'', ''Markdown'')]"

definition detect_language :: "string \<Rightarrow> string" where
  "detect_language file_path =
     (if CHR ''.'' \<notin> set file_path then ''Unknown''
      else let extension = ''.'' @ rsplit1_last (CHR ''.'') file_path;
               extension_lower = lower extension
           in (case map_of EXTENSION_TO_LANGUAGE extension_lower of
                 None \<Rightarrow> ''Unknown'' | Some language \<Rightarrow> language))"

definition dict_get :: "('k \<times> 'v) list \<Rightarrow> 'k \<Rightarrow> 'v \<Rightarrow> 'v" where
  "dict_get d k dflt = (case map_of d k of None \<Rightarrow> dflt | Some v \<Rightarrow> v)"

definition dict_incr :: "(string \<times> nat) list \<Rightarrow> string \<Rightarrow> nat \<Rightarrow> (string \<times> nat) list" where
  \<comment> \<open>\<open>d[k] += n\<close> on a \<open>defaultdict(int)\<close>\<close>
  "dict_incr d k n = dict_set d k (dict_get d k 0 + n)"

record counting =
  language_counts :: "(string \<times> nat) list"
  language_lines :: "(string \<times> nat) list"
  total_files :: nat

definition count_language :: "counting \<Rightarrow> file_obj \<Rightarrow> counting" where
  \<comment> \<open>the body of the counting loop\<close>
  "count_language st file_obj =
     (let path = get_field file_obj ''path''; content = get_field file_obj ''content'';
          language = detect_language path
      in if language \<noteq> ''Unknown''
         then \<lparr>language_counts = dict_incr (language_counts st) language 1,
               language_lines = dict_incr (language_lines st) language
                  (length (filter (\<lambda>line. strip line \<noteq> []) (split (CHR 0x0A) content))),
               total_files = total_files st + 1\<rparr>
         else st)"

definition count_languages :: "file_obj list \<Rightarrow> counting" where
  "count_languages fs =
     foldl count_language \<lparr>language_counts = [], language_lines = [], total_files = 0\<rparr> fs"

fun max_by :: "('a \<Rightarrow> nat) \<Rightarrow> 'a \<Rightarrow> 'a list \<Rightarrow> 'a" where
  \<comment> \<open>\<open>max(xs, key=key)\<close> on a list that is not empty: the first of the largest\<close>
  "max_by key best [] = best"
| "max_by key best (x # xs) = max_by key (if key x > key best then x else best) xs"

record language_stats =
  languages :: "(string \<times> nat \<times> nat) list"
  primary_language :: "string option"
  stats_total_files :: nat

definition get_repo_language_stats :: "file_obj list \<Rightarrow> language_stats" where
  \<comment> \<open>an entry of \<open>languages\<close> is the language with its \<open>"files"\<close> and \<open>"lines"\<close>;
      \<open>"percentage"\<close>, a rounded float, is left out\<close>
  "get_repo_language_stats fs =
     (let st = count_languages fs
      in if total_files st = 0
         then \<lparr>languages = [], primary_language = None, stats_total_files = 0\<rparr>
         else \<lparr>languages =
                 sort_key (\<lambda>(lang, n, ls). - int n)
                   (map (\<lambda>(lang, n). (lang, n, dict_get (language_lines st) lang 0))
                        (language_counts st)),
               primary_language =
                 (case language_counts st of [] \<Rightarrow> None
                  | x # xs \<Rightarrow> Some (fst (max_by snd x xs))),
               stats_total_files = total_files st\<rparr>)"

definition file_count_of :: "file_obj list \<Rightarrow> string \<Rightarrow> nat" where
  \<comment> \<open>how many files of the list classify to the language\<close>
  "file_count_of fs language =
     length (filter (\<lambda>f. detect_language (get_field f ''path'') = language) fs)"

definition classified :: "file_obj list \<Rightarrow> string list" where
  \<comment> \<open>the known languages of the files, in the order of the files\<close>
  "classified fs =
     filter (\<lambda>l. l \<noteq> ''Unknown'') (map (\<lambda>f. detect_language (get_field f ''path'')) fs)"

section \<open>graph/flow\_builder.py\<close>

record stage =
  stage_id :: string
  stage_type :: string
  components :: "string list"
  description :: string

record connection =
  conn_from :: string
  conn_to :: string
  conn_label :: string

record ExecutionFlow =
  stages :: "stage list"
  connections :: "connection list"

definition empty_flow :: ExecutionFlow where
  "empty_flow = \<lparr>stages = [], connections = []\<rparr>"

definition add_stage :: "ExecutionFlow \<Rightarrow> string \<Rightarrow> string \<Rightarrow> string list \<Rightarrow> string \<Rightarrow> ExecutionFlow" where
  "add_stage flow sid stype comps descr =
     flow\<lparr>stages := stages flow @
       [\<lparr>stage_id = sid, stage_type = stype, components = comps, description = descr\<rparr>]\<rparr>"

definition add_connection :: "ExecutionFlow \<Rightarrow> string \<Rightarrow> string \<Rightarrow> string \<Rightarrow> ExecutionFlow" where
  "add_connection flow from_stage to_stage label =
     flow\<lparr>connections := connections flow @
       [\<lparr>conn_from = from_stage, conn_to = to_stage, conn_label = label\<rparr>]\<rparr>"

text \<open>A folder summary is a \<open>dict\<close> read with \<open>summary.get(field, "")\<close>, as a file object is.\<close>

definition folders_with_role :: "string list \<Rightarrow> file_obj list \<Rightarrow> string list" where
  \<comment> \<open>the loop the four \<open>_identify_\<close> functions share\<close>
  "folders_with_role roles folder_summaries =
     map (\<lambda>summary. get_field summary ''folder'')
         (filter (\<lambda>summary. get_field summary ''role'' \<in> set roles) folder_summaries)"

definition identify_backend_components :: "file_obj list \<Rightarrow> string list \<Rightarrow> string list" where
  "identify_backend_components folder_summaries frameworks =
     folders_with_role [''backend'', ''api'', ''services''] folder_summaries"

definition identify_database_components :: "file_obj list \<Rightarrow> string list \<Rightarrow> string list" where
  "identify_database_components folder_summaries databases =
     folders_with_role [''database'', ''models''] folder_summaries @ databases"

definition identify_frontend_components :: "file_obj list \<Rightarrow> string list" where
  "identify_frontend_components folder_summaries =
     folders_with_role [''frontend'', ''client'', ''ui''] folder_summaries"

definition identify_middleware_components :: "file_obj list \<Rightarrow> string list" where
  "identify_middleware_components folder_summaries =
     folders_with_role [''middleware'', ''utils'', ''utilities'', ''scripts''] folder_summaries"

definition entry_stage :: "string list \<Rightarrow> ExecutionFlow \<Rightarrow> ExecutionFlow" where
  "entry_stage all_entries flow =
     (if all_entries \<noteq> []
      then add_stage flow ''entry'' ''entry_point'' (take 5 all_entries) ''Application entry points''
      else flow)"

definition frontend_stage :: "string list \<Rightarrow> string list \<Rightarrow> string list \<Rightarrow> ExecutionFlow \<Rightarrow> ExecutionFlow" where
  "frontend_stage all_entries frontend_components frameworks flow =
     (if frontend_components \<noteq> []
      then let flow = add_stage flow ''frontend'' ''frontend'' frontend_components ''Frontend/UI layer''
           in if all_entries \<noteq> []
                 \<and> list_ex (\<lambda>fw. fw \<in> set [''React'', ''Vue'', ''Angular'', ''Next.js'', ''Svelte''])
                      frameworks
              then add_connection flow ''entry'' ''frontend'' ''Renders UI'' else flow
      else flow)"

definition backend_stage :: "string list \<Rightarrow> string list \<Rightarrow> string list \<Rightarrow> ExecutionFlow \<Rightarrow> ExecutionFlow" where
  "backend_stage all_entries frontend_components backend_components flow =
     (if backend_components \<noteq> []
      then let flow = add_stage flow ''backend'' ''backend'' backend_components
                        ''Backend services and APIs''
           in if frontend_components \<noteq> []
              then add_connection flow ''frontend'' ''backend'' ''API calls''
              else if all_entries \<noteq> []
              then add_connection flow ''entry'' ''backend'' ''Processes requests''
              else flow
      else flow)"

definition middleware_stage :: "string list \<Rightarrow> string list \<Rightarrow> ExecutionFlow \<Rightarrow> ExecutionFlow" where
  "middleware_stage backend_components middleware_components flow =
     (if middleware_components \<noteq> [] \<and> length middleware_components \<ge> 2
      then let flow = add_stage flow ''middleware'' ''middleware'' middleware_components
                        ''Middleware and utilities''
           in if backend_components \<noteq> []
              then add_connection flow ''backend'' ''middleware'' ''Uses utilities'' else flow
      else flow)"

definition database_stage :: "string list \<Rightarrow> string list \<Rightarrow> string list \<Rightarrow> ExecutionFlow \<Rightarrow> ExecutionFlow" where
  "database_stage all_entries backend_components db_components flow =
     (if db_components \<noteq> []
      then let flow = add_stage flow ''database'' ''database'' db_components
                        ''Data persistence layer''
           in if backend_components \<noteq> []
              then add_connection flow ''backend'' ''database'' ''Data operations''
              else if all_entries \<noteq> []
              then add_connection flow ''entry'' ''database'' ''Data operations''
              else flow
      else flow)"

definition external_services_of :: "string list \<Rightarrow> string list \<Rightarrow> string list" where
  "external_services_of databases infrastructure =
     (if list_ex (\<lambda>infra. infra \<in> set [''Docker'', ''Kubernetes'']) infrastructure
      then [''Container orchestration''] else []) @
     (if ''Redis'' \<in> set databases then [''Redis (caching/queue)''] else []) @
     (if ''Elasticsearch'' \<in> set databases then [''Elasticsearch (search)''] else [])"

definition external_stage :: "string list \<Rightarrow> string list \<Rightarrow> ExecutionFlow \<Rightarrow> ExecutionFlow" where
  "external_stage backend_components external_services flow =
     (if external_services \<noteq> []
      then let flow = add_stage flow ''external'' ''external_services'' external_services
                        ''External services and infrastructure''
           in if backend_components \<noteq> []
              then add_connection flow ''backend'' ''external'' ''External calls'' else flow
      else flow)"

definition build_execution_flow ::
  "entrypoints \<Rightarrow> file_obj list \<Rightarrow> string list \<Rightarrow> string list \<Rightarrow> string list \<Rightarrow> ExecutionFlow" where
  "build_execution_flow eps folder_summaries frameworks databases infrastructure =
     (let entry_files = map app_path (application_files eps);
          framework_entries = map fw_path (framework_entrypoints eps);
          all_entries = entry_files @ framework_entries;
          frontend_components = identify_frontend_components folder_summaries;
          backend_components = identify_backend_components folder_summaries frameworks;
          middleware_components = identify_middleware_components folder_summaries;
          db_components = identify_database_components folder_summaries databases;
          external_services = external_services_of databases infrastructure
      in external_stage backend_components external_services
           (database_stage all_entries backend_components db_components
             (middleware_stage backend_components middleware_components
               (backend_stage all_entries frontend_components backend_components
                 (frontend_stage all_entries frontend_components frameworks
                   (entry_stage all_entries empty_flow))))))"

definition STAGE_IDS :: "string list" where
  \<comment> \<open>the fixed tokens, in the order of construction\<close>
  "STAGE_IDS = [''entry'', ''frontend'', ''backend'', ''middleware'', ''database'', ''external'']"

text \<open>The stage ids of a flow, and the condition on its connections.\<close>

definition ids :: "ExecutionFlow \<Rightarrow> string set" where
  "ids flow = set (map stage_id (stages flow))"

definition conns_ok :: "ExecutionFlow \<Rightarrow> bool" where
  "conns_ok flow =
     (\<forall>c \<in> set (connections flow). conn_from c \<in> ids flow \<and> conn_to c \<in> ids flow)"

definition flow_example :: ExecutionFlow where
  \<comment> \<open>a repository whose flow has all six stages\<close>
  "flow_example = build_execution_flow
     \<lparr>application_files =
        [\<lparr>app_path = ''main.py'', app_type = ''Python'', app_filename = ''main.py''\<rparr>],
      framework_entrypoints = [], docker_entrypoints = []\<rparr>
     [[''folder'' \<mapsto> ''web'', ''role'' \<mapsto> ''frontend''],
      [''folder'' \<mapsto> ''api'', ''role'' \<mapsto> ''backend''],
      [''folder'' \<mapsto> ''tools'', ''role'' \<mapsto> ''scripts''],
      [''folder'' \<mapsto> ''lib'', ''role'' \<mapsto> ''utils''],
      [''folder'' \<mapsto> ''db'', ''role'' \<mapsto> ''database'']]
     [''React''] [''Redis''] [''Docker'']"

text \<open>
  What the counting loop of \<open>_classify_by_content\<close> computes, said without the loop: how
  many files have an extension of a bucket, and whether some path has one of the segments.
\<close>

definition ext_count :: "string set \<Rightarrow> file_obj list \<Rightarrow> nat" where
  "ext_count exts fs = length (filter (\<lambda>f. extension_of (get_field f ''path'') \<in> exts) fs)"

definition any_segment :: "string list \<Rightarrow> file_obj list \<Rightarrow> bool" where
  "any_segment pats fs = list_ex (\<lambda>f. has_segment pats (lower (get_field f ''path''))) fs"

definition lib_files :: "file_obj list" where
  "lib_files = [mk_file ''lib/a.py'' ''x'', mk_file ''web/x.html'' ''y'', mk_file ''lib/b.py'' ''z'',
                mk_file ''README'' ''r'', mk_file ''lib/c.py'' ''w'']"

definition tally :: "string list \<Rightarrow> (string \<times> nat) list" where
  \<comment> \<open>\<open>language_counts\<close> after counting the languages of a list, one at a time\<close>
  "tally ls = foldl (\<lambda>d l. dict_incr d l 1) [] ls"

definition lang_files :: "file_obj list" where
  "lang_files = [mk_file ''README'' ''r'', mk_file ''a.py'' ''x'', mk_file ''b.js'' ''y'',
                 mk_file ''c.JS'' ''z'', mk_file ''d.py'' ''w'', mk_file ''e.go'' ''v'']"

definition flask_minimal :: string where
  \<comment> \<open>the two lines the scenario names and nothing else\<close>
  "flask_minimal = ''from flask import Flask\<newline>app.run()''"

definition flask_app :: string where
  \<comment> \<open>the same with the line that creates the application\<close>
  "flask_app = ''from flask import Flask\<newline>app = Flask(__name__)\<newline>app.run()''"

section \<open>Evaluation\<close>

text \<open>
  Lower-casing computed on the bits of the character; the evaluations below use it in place
  of the arithmetic of the definition.
\<close>

lemma py_lower_char_code [code]:
  "py_lower_char (Char b0 b1 b2 b3 b4 b5 b6 b7) =
     (if b6 \<and> \<not> b5 \<and>
         (if b7 then \<not> (b4 \<and> b3 \<and> b2 \<and> b1 \<and> b0) \<and> \<not> (b4 \<and> \<not> b3 \<and> b2 \<and> b1 \<and> b0)
          else (b0 \<or> b1 \<or> b2 \<or> b3 \<or> b4) \<and> \<not> (b4 \<and> b3 \<and> (b2 \<or> (b1 \<and> b0))))
      then Char b0 b1 b2 b3 b4 True b6 b7 else Char b0 b1 b2 b3 b4 b5 b6 b7)"
  by (cases b0; cases b1; cases b2; cases b3; cases b4; cases b5; cases b6; cases b7;
      simp add: py_lower_char_def char_of_def bit_Suc_0_iff)

lemma get_field_mk_file:
  "get_field (mk_file p c) ''path'' = p"
  "get_field (mk_file p c) ''content'' = c"
  by (simp_all add: get_field_def mk_file_def)

text \<open>
  \<open>split\<close> returns one part more than there are separators: the first part always
  exists, and so does the second when the separator occurs.
\<close>

lemma split_not_Nil: "split sep s \<noteq> []"
  by (induction s) (auto split: list.splits)

lemma split_length: "length (split sep s) = Suc (length (filter (\<lambda>c. c = sep) s))"
  by (induction s) (auto split: list.splits)

section \<open>The dependency graph\<close>

lemma ups_add_edge: "ups (add_edge g a b) x = (if x = a then insert b (ups g a) else ups g x)"
  by (simp add: ups_def add_edge_def dd_add_def dd_item_def split: option.splits)

lemma downs_add_edge:
  "downs (add_edge g a b) x = (if x = b then insert a (downs g b) else downs g x)"
  by (simp add: downs_def add_edge_def dd_add_def dd_item_def split: option.splits)

lemma ups_add_node: "ups (add_node g a) = ups g"
  by (simp add: ups_def add_node_def fun_eq_iff)

lemma downs_add_node: "downs (add_node g a) = downs g"
  by (simp add: downs_def add_node_def fun_eq_iff)

lemma dom_add_edge:
  "dom (edges (add_edge g a b)) = insert a (dom (edges g))"
  "dom (reverse_edges (add_edge g a b)) = insert b (dom (reverse_edges g))"
  "nodes (add_edge g a b) = insert b (insert a (nodes g))"
  by (auto simp: add_edge_def dd_add_def dd_item_def split: option.splits)

lemma graph_inv_empty: "graph_inv empty_graph"
  by (simp add: graph_inv_def ups_def downs_def empty_graph_def)

lemma graph_inv_add_node: "graph_inv g \<Longrightarrow> graph_inv (add_node g a)"
  unfolding graph_inv_def ups_add_node downs_add_node
  by (auto simp: add_node_def)

lemma graph_inv_add_edge: "graph_inv g \<Longrightarrow> a \<noteq> b \<Longrightarrow> graph_inv (add_edge g a b)"
  unfolding graph_inv_def ups_add_edge downs_add_edge dom_add_edge
  by auto

lemma graph_inv_add_import: "graph_inv g \<Longrightarrow> graph_inv (add_import ps p g i)"
  by (auto simp: add_import_def graph_inv_add_edge split: option.splits)

lemma graph_inv_foldl_add_import:
  "graph_inv g \<Longrightarrow> graph_inv (foldl (add_import ps p) g is)"
  by (induction "is" arbitrary: g) (simp_all add: graph_inv_add_import)

lemma graph_inv_process_file: "graph_inv g \<Longrightarrow> graph_inv (process_file ps g f)"
  by (simp add: process_file_def Let_def graph_inv_foldl_add_import graph_inv_add_node)

lemma graph_inv_foldl_process_file:
  "graph_inv g \<Longrightarrow> graph_inv (foldl (process_file ps) g fs)"
  by (induction fs arbitrary: g) (simp_all add: graph_inv_process_file)

lemma graph_inv_build: "graph_inv (build_dependency_graph fs)"
  by (simp add: build_dependency_graph_def graph_inv_foldl_process_file graph_inv_empty)

lemma fst_get_upstream: "fst (get_upstream g a) = sorted_list_of_set (ups g a)"
  by (simp add: get_upstream_def dd_get_def ups_def split: option.splits)

lemma fst_get_downstream: "fst (get_downstream g a) = sorted_list_of_set (downs g a)"
  by (simp add: get_downstream_def dd_get_def downs_def split: option.splits)

lemma set_get_upstream:
  "set (fst (get_upstream (build_dependency_graph fs) a)) = ups (build_dependency_graph fs) a"
proof -
  have "graph_inv (build_dependency_graph fs)" by (rule graph_inv_build)
  then have "finite (ups (build_dependency_graph fs) a)"
    unfolding graph_inv_def by blast
  then show ?thesis by (simp add: fst_get_upstream)
qed

lemma set_get_downstream:
  "set (fst (get_downstream (build_dependency_graph fs) a)) = downs (build_dependency_graph fs) a"
proof -
  have "graph_inv (build_dependency_graph fs)" by (rule graph_inv_build)
  then have "finite (downs (build_dependency_graph fs) a)"
    unfolding graph_inv_def by blast
  then show ?thesis by (simp add: fst_get_downstream)
qed

text \<open>
  The imports of a file are a Python set made a list; whatever order that list has, the
  loop over it builds the same graph.
\<close>

lemma add_edge_commute: "add_edge (add_edge g p a) p b = add_edge (add_edge g p b) p a"
  by (auto simp: add_edge_def dd_add_def dd_item_def fun_eq_iff insert_commute
      split: option.splits)

lemma add_edge_idem: "add_edge (add_edge g p a) p a = add_edge g p a"
  by (auto simp: add_edge_def dd_add_def dd_item_def fun_eq_iff insert_commute
      split: option.splits)

lemma add_import_commute:
  "add_import ps p (add_import ps p g i) j = add_import ps p (add_import ps p g j) i"
  by (auto simp: add_import_def add_edge_commute split: option.splits)

lemma add_import_idem: "add_import ps p (add_import ps p g i) i = add_import ps p g i"
  by (auto simp: add_import_def add_edge_idem split: option.splits)

lemma imports_order_irrelevant:
  assumes "set is = set js"
  shows "foldl (add_import ps p) g is = foldl (add_import ps p) g js"
proof -
  have c: "comp_fun_idem_on UNIV (\<lambda>i g. add_import ps p g i)"
    by unfold_locales (auto simp: fun_eq_iff add_import_commute add_import_idem)
  have "foldl (add_import ps p) g xs = Finite_Set.fold (\<lambda>i g. add_import ps p g i) g (set xs)"
    for xs
    using comp_fun_idem_on.fold_set_fold [OF c, of xs g] by (simp add: foldl_conv_fold)
  then show ?thesis using assms by simp
qed

text \<open>The scenario of two files at the root of the repository.\<close>

definition two_files :: "string \<Rightarrow> file_obj list" where
  "two_files cb = [mk_file ''a.py'' ''import b'', mk_file ''b.py'' cb]"

lemma imports_of_a: "imports_of ''a.py'' ''import b'' = [''b'']"
  by code_simp

lemma resolve_b: "resolve_import_to_file ''b'' [''a.py'', ''b.py''] = Some ''b.py''"
  by code_simp

lemma imports_of_b: "extract_python_imports cb = [] \<Longrightarrow> imports_of ''b.py'' cb = []"
  by (simp add: imports_of_def endswith_def)

lemma process_a:
  "process_file [''a.py'', ''b.py''] empty_graph (mk_file ''a.py'' ''import b'') =
     \<lparr>nodes = {''a.py'', ''b.py''}, edges = [''a.py'' \<mapsto> {''b.py''}],
      reverse_edges = [''b.py'' \<mapsto> {''a.py''}]\<rparr>"
  by (auto simp: process_file_def Let_def get_field_mk_file imports_of_a add_import_def resolve_b
      add_edge_def add_node_def empty_graph_def dd_add_def dd_item_def)

lemma process_b:
  assumes "extract_python_imports cb = []"
  shows "process_file ps
           \<lparr>nodes = {''a.py'', ''b.py''}, edges = E, reverse_edges = R\<rparr> (mk_file ''b.py'' cb) =
         \<lparr>nodes = {''a.py'', ''b.py''}, edges = E, reverse_edges = R\<rparr>"
  using assms
  by (auto simp: process_file_def Let_def get_field_mk_file imports_of_b add_node_def)

lemma build_two_files:
  assumes "extract_python_imports cb = []"
  shows "build_dependency_graph (two_files cb) =
     \<lparr>nodes = {''a.py'', ''b.py''}, edges = [''a.py'' \<mapsto> {''b.py''}],
      reverse_edges = [''b.py'' \<mapsto> {''a.py''}]\<rparr>"
  by (simp add: build_dependency_graph_def two_files_def get_field_mk_file process_a
      process_b [OF assms])

text \<open>
  C3: in every graph \<open>build_dependency_graph\<close> returns, \<open>B\<close> is in \<open>get_upstream(A)\<close> if and
  only if \<open>A\<close> is in \<open>get_downstream(B)\<close>.
\<close>

theorem upstream_downstream_inverse:
  "B \<in> set (fst (get_upstream (build_dependency_graph fs) A)) \<longleftrightarrow>
   A \<in> set (fst (get_downstream (build_dependency_graph fs) B))"
proof -
  have "graph_inv (build_dependency_graph fs)" by (rule graph_inv_build)
  then have "B \<in> ups (build_dependency_graph fs) A \<longleftrightarrow> A \<in> downs (build_dependency_graph fs) B"
    unfolding graph_inv_def by blast
  then show ?thesis by (simp only: set_get_upstream set_get_downstream)
qed

theorem upstream_downstream_inverse_witness:
  "''b.py'' \<in> set (fst (get_upstream (build_dependency_graph (two_files ''x = 1'')) ''a.py'')) \<and>
   ''a.py'' \<in> set (fst (get_downstream (build_dependency_graph (two_files ''x = 1'')) ''b.py''))"
proof -
  have "extract_python_imports ''x = 1'' = []" by code_simp
  then have "''b.py'' \<in> set (fst (get_upstream (build_dependency_graph (two_files ''x = 1'')) ''a.py''))"
    by (simp add: build_two_files get_upstream_def dd_get_def)
  then show ?thesis
    using upstream_downstream_inverse [of "''b.py''" "two_files ''x = 1''" "''a.py''"] by simp
qed

text \<open>
  C4: no graph \<open>build_dependency_graph\<close> returns has a self-loop: no path \<open>B\<close>, in the graph
  or not, is in \<open>get_upstream(B)\<close>; and an import that resolves to the importing file leaves
  the graph as it is.
\<close>

theorem no_self_loop:
  "B \<notin> set (fst (get_upstream (build_dependency_graph fs) B)) \<and>
   (resolve_import_to_file i ps = Some p \<longrightarrow> add_import ps p g i = g)"
proof -
  have "graph_inv (build_dependency_graph fs)" by (rule graph_inv_build)
  then have "B \<notin> ups (build_dependency_graph fs) B"
    unfolding graph_inv_def by blast
  then show ?thesis by (simp add: set_get_upstream add_import_def)
qed

theorem no_self_loop_witness:
  "resolve_import_to_file ''b'' [''lib/a.py'', ''lib/b.py''] = Some ''lib/a.py'' \<and>
   add_import [''lib/a.py'', ''lib/b.py''] ''lib/a.py'' empty_graph ''b'' = empty_graph \<and>
   ''lib/a.py'' \<notin> set (fst (get_upstream (build_dependency_graph
       [mk_file ''lib/a.py'' ''import b'', mk_file ''lib/b.py'' ''x = 1'']) ''lib/a.py''))"
proof -
  have h: "resolve_import_to_file ''b'' [''lib/a.py'', ''lib/b.py''] = Some ''lib/a.py''"
    by code_simp
  show ?thesis
    using h no_self_loop [of "''lib/a.py''"
        "[mk_file ''lib/a.py'' ''import b'', mk_file ''lib/b.py'' ''x = 1'']"
        "''b''" "[''lib/a.py'', ''lib/b.py'']" "''lib/a.py''" empty_graph]
    by simp
qed

















text \<open>
  C10: \<open>get_upstream\<close>, \<open>get_downstream\<close>, \<open>get_all_nodes\<close> and \<open>to_dict\<close> leave the graph as
  it was, also when asked about a node that is not in the graph; a node with no key in an
  edge map gets the empty list, and in a graph \<open>build_dependency_graph\<close> returns that is
  every node outside \<open>nodes\<close>.
\<close>

theorem queries_are_observers:
  "snd (get_upstream g n) = g \<and> snd (get_downstream g n) = g \<and>
   snd (get_all_nodes g) = g \<and> snd (to_dict g) = g \<and>
   (n \<notin> dom (edges g) \<longrightarrow> fst (get_upstream g n) = []) \<and>
   (n \<notin> dom (reverse_edges g) \<longrightarrow> fst (get_downstream g n) = []) \<and>
   (n \<notin> nodes (build_dependency_graph fs) \<longrightarrow>
      fst (get_upstream (build_dependency_graph fs) n) = [] \<and>
      fst (get_downstream (build_dependency_graph fs) n) = [])"
proof -
  have "graph_inv (build_dependency_graph fs)" by (rule graph_inv_build)
  then have "dom (edges (build_dependency_graph fs)) \<subseteq> nodes (build_dependency_graph fs)"
    and "dom (reverse_edges (build_dependency_graph fs)) \<subseteq> nodes (build_dependency_graph fs)"
    unfolding graph_inv_def by blast+
  then have "n \<notin> nodes (build_dependency_graph fs) \<Longrightarrow>
      edges (build_dependency_graph fs) n = None \<and>
      reverse_edges (build_dependency_graph fs) n = None"
    by blast
  then show ?thesis
    by (auto simp: get_upstream_def get_downstream_def get_all_nodes_def to_dict_def dd_get_def
        split: option.splits)
qed

theorem queries_are_observers_witness:
  "''c.py'' \<notin> nodes (build_dependency_graph (two_files ''x = 1'')) \<and>
   get_upstream (build_dependency_graph (two_files ''x = 1'')) ''c.py'' =
     ([], build_dependency_graph (two_files ''x = 1'')) \<and>
   get_downstream (build_dependency_graph (two_files ''x = 1'')) ''c.py'' =
     ([], build_dependency_graph (two_files ''x = 1''))"
proof -
  have "extract_python_imports ''x = 1'' = []" by code_simp
  then have h: "''c.py'' \<notin> nodes (build_dependency_graph (two_files ''x = 1''))"
    by (simp add: build_two_files)
  show ?thesis
    using h queries_are_observers [of "build_dependency_graph (two_files ''x = 1'')" "''c.py''"
        "two_files ''x = 1''"]
    by (simp add: prod_eq_iff)
qed

section \<open>The execution flow\<close>

lemma add_stage_simps:
  "map stage_id (stages (add_stage flow i t c d)) = map stage_id (stages flow) @ [i]"
  "ids (add_stage flow i t c d) = insert i (ids flow)"
  "connections (add_stage flow i t c d) = connections flow"
  by (simp_all add: add_stage_def ids_def)

lemma add_connection_simps:
  "stages (add_connection flow a b l) = stages flow"
  "ids (add_connection flow a b l) = ids flow"
  by (simp_all add: add_connection_def ids_def)

lemma conns_ok_add_stage: "conns_ok flow \<Longrightarrow> conns_ok (add_stage flow i t c d)"
  by (simp add: conns_ok_def add_stage_simps)

lemma conns_ok_add_connection:
  "conns_ok flow \<Longrightarrow> a \<in> ids flow \<Longrightarrow> b \<in> ids flow \<Longrightarrow> conns_ok (add_connection flow a b l)"
  by (simp add: conns_ok_def add_connection_simps) (simp add: add_connection_def)

lemma stage_ids_steps:
  "map stage_id (stages (entry_stage ae flow)) =
     map stage_id (stages flow) @ (if ae \<noteq> [] then [''entry''] else [])"
  "map stage_id (stages (frontend_stage ae fe fws flow)) =
     map stage_id (stages flow) @ (if fe \<noteq> [] then [''frontend''] else [])"
  "map stage_id (stages (backend_stage ae fe be flow)) =
     map stage_id (stages flow) @ (if be \<noteq> [] then [''backend''] else [])"
  "map stage_id (stages (middleware_stage be mw flow)) =
     map stage_id (stages flow) @ (if mw \<noteq> [] \<and> length mw \<ge> 2 then [''middleware''] else [])"
  "map stage_id (stages (database_stage ae be db flow)) =
     map stage_id (stages flow) @ (if db \<noteq> [] then [''database''] else [])"
  "map stage_id (stages (external_stage be ex flow)) =
     map stage_id (stages flow) @ (if ex \<noteq> [] then [''external''] else [])"
  by (simp_all add: entry_stage_def frontend_stage_def backend_stage_def middleware_stage_def
      database_stage_def external_stage_def Let_def add_stage_simps add_connection_simps)

lemma ids_steps:
  "ids (entry_stage ae flow) = ids flow \<union> (if ae \<noteq> [] then {''entry''} else {})"
  "ids (frontend_stage ae fe fws flow) = ids flow \<union> (if fe \<noteq> [] then {''frontend''} else {})"
  "ids (backend_stage ae fe be flow) = ids flow \<union> (if be \<noteq> [] then {''backend''} else {})"
  "ids (middleware_stage be mw flow) =
     ids flow \<union> (if mw \<noteq> [] \<and> length mw \<ge> 2 then {''middleware''} else {})"
  "ids (database_stage ae be db flow) = ids flow \<union> (if db \<noteq> [] then {''database''} else {})"
  "ids (external_stage be ex flow) = ids flow \<union> (if ex \<noteq> [] then {''external''} else {})"
  unfolding ids_def stage_ids_steps by simp_all


lemma conns_ok_entry: "conns_ok flow \<Longrightarrow> conns_ok (entry_stage ae flow)"
  by (simp add: entry_stage_def conns_ok_add_stage)

lemma conns_ok_frontend:
  assumes "conns_ok flow" and "ae \<noteq> [] \<Longrightarrow> ''entry'' \<in> ids flow"
  shows "conns_ok (frontend_stage ae fe fws flow)"
  using assms
  by (simp add: frontend_stage_def Let_def conns_ok_add_stage conns_ok_add_connection
      add_stage_simps)

lemma conns_ok_backend:
  assumes "conns_ok flow" and "ae \<noteq> [] \<Longrightarrow> ''entry'' \<in> ids flow"
    and "fe \<noteq> [] \<Longrightarrow> ''frontend'' \<in> ids flow"
  shows "conns_ok (backend_stage ae fe be flow)"
  using assms
  by (simp add: backend_stage_def Let_def conns_ok_add_stage conns_ok_add_connection
      add_stage_simps)

lemma conns_ok_middleware:
  assumes "conns_ok flow" and "be \<noteq> [] \<Longrightarrow> ''backend'' \<in> ids flow"
  shows "conns_ok (middleware_stage be mw flow)"
  using assms
  by (simp add: middleware_stage_def Let_def conns_ok_add_stage conns_ok_add_connection
      add_stage_simps)

lemma conns_ok_database:
  assumes "conns_ok flow" and "ae \<noteq> [] \<Longrightarrow> ''entry'' \<in> ids flow"
    and "be \<noteq> [] \<Longrightarrow> ''backend'' \<in> ids flow"
  shows "conns_ok (database_stage ae be db flow)"
  using assms
  by (simp add: database_stage_def Let_def conns_ok_add_stage conns_ok_add_connection
      add_stage_simps)

lemma conns_ok_external:
  assumes "conns_ok flow" and "be \<noteq> [] \<Longrightarrow> ''backend'' \<in> ids flow"
  shows "conns_ok (external_stage be ex flow)"
  using assms
  by (simp add: external_stage_def Let_def conns_ok_add_stage conns_ok_add_connection
      add_stage_simps)

lemma conns_ok_build: "conns_ok (build_execution_flow eps fs fws dbs infra)"
proof -
  let ?ae = "map app_path (application_files eps) @ map fw_path (framework_entrypoints eps)"
  let ?fe = "identify_frontend_components fs" and ?be = "identify_backend_components fs fws"
  let ?mw = "identify_middleware_components fs" and ?db = "identify_database_components fs dbs"
  let ?ex = "external_services_of dbs infra"
  let ?f1 = "entry_stage ?ae empty_flow"
  let ?f2 = "frontend_stage ?ae ?fe fws ?f1"
  let ?f3 = "backend_stage ?ae ?fe ?be ?f2"
  let ?f4 = "middleware_stage ?be ?mw ?f3"
  let ?f5 = "database_stage ?ae ?be ?db ?f4"
  have "conns_ok empty_flow" by (simp add: conns_ok_def empty_flow_def)
  then have 1: "conns_ok ?f1" by (rule conns_ok_entry)
  have e1: "?ae \<noteq> [] \<Longrightarrow> ''entry'' \<in> ids ?f1" by (simp add: ids_steps)
  have 2: "conns_ok ?f2" using 1 e1 by (rule conns_ok_frontend)
  have e2: "?ae \<noteq> [] \<Longrightarrow> ''entry'' \<in> ids ?f2" using e1 by (simp add: ids_steps)
  have f2: "?fe \<noteq> [] \<Longrightarrow> ''frontend'' \<in> ids ?f2" by (simp add: ids_steps)
  have 3: "conns_ok ?f3" using 2 e2 f2 by (rule conns_ok_backend)
  have e3: "?ae \<noteq> [] \<Longrightarrow> ''entry'' \<in> ids ?f3" using e2 by (simp add: ids_steps(3))
  have b3: "?be \<noteq> [] \<Longrightarrow> ''backend'' \<in> ids ?f3" by (simp add: ids_steps(3))
  have 4: "conns_ok ?f4" using 3 b3 by (rule conns_ok_middleware)
  have e4: "?ae \<noteq> [] \<Longrightarrow> ''entry'' \<in> ids ?f4" using e3 by (simp add: ids_steps(4))
  have b4: "?be \<noteq> [] \<Longrightarrow> ''backend'' \<in> ids ?f4" using b3 by (simp add: ids_steps(4))
  have 5: "conns_ok ?f5" using 4 e4 b4 by (rule conns_ok_database)
  have b5: "?be \<noteq> [] \<Longrightarrow> ''backend'' \<in> ids ?f5" using b4 by (simp add: ids_steps(5))
  have "conns_ok (external_stage ?be ?ex ?f5)" using 5 b5 by (rule conns_ok_external)
  then show ?thesis by (simp only: build_execution_flow_def Let_def)
qed

lemma stage_ids_build:
  "map stage_id (stages (build_execution_flow eps fs fws dbs infra)) =
     (if map app_path (application_files eps) @ map fw_path (framework_entrypoints eps) \<noteq> []
      then [''entry''] else []) @
     (if identify_frontend_components fs \<noteq> [] then [''frontend''] else []) @
     (if identify_backend_components fs fws \<noteq> [] then [''backend''] else []) @
     (if identify_middleware_components fs \<noteq> [] \<and> length (identify_middleware_components fs) \<ge> 2
      then [''middleware''] else []) @
     (if identify_database_components fs dbs \<noteq> [] then [''database''] else []) @
     (if external_services_of dbs infra \<noteq> [] then [''external''] else [])"
  unfolding build_execution_flow_def Let_def stage_ids_steps
  by (simp only: empty_flow_def ExecutionFlow.simps list.map append_Nil append_assoc)

lemma subseq_opt: "subseq (if b then [x] else []) [x]"
  by simp

lemma stage_ids_subseq:
  "subseq (map stage_id (stages (build_execution_flow eps fs fws dbs infra))) STAGE_IDS"
proof -
  show ?thesis
    unfolding stage_ids_build STAGE_IDS_def
    by (intro list_emb_append_mono [where xs' = "[x]" and ys' = "y # ys" for x y ys, simplified]
        subseq_opt)
qed

lemma subseq_distinct: "subseq xs ys \<Longrightarrow> distinct ys \<Longrightarrow> distinct xs"
  by (induction rule: list_emb.induct) (auto dest: list_emb_set)

text \<open>
  C9: whatever the inputs, the stage ids of the flow \<open>build_execution_flow\<close> returns are
  pairwise distinct and are a subsequence of \<open>entry, frontend, backend, middleware,
  database, external\<close>; both ends of every connection are ids of stages of the flow.
\<close>

theorem flow_well_formed:
  "distinct (map stage_id (stages (build_execution_flow eps fs fws dbs infra))) \<and>
   subseq (map stage_id (stages (build_execution_flow eps fs fws dbs infra))) STAGE_IDS \<and>
   (\<forall>c \<in> set (connections (build_execution_flow eps fs fws dbs infra)).
      conn_from c \<in> set (map stage_id (stages (build_execution_flow eps fs fws dbs infra))) \<and>
      conn_to c \<in> set (map stage_id (stages (build_execution_flow eps fs fws dbs infra))))"
proof (intro conjI)
  show s: "subseq (map stage_id (stages (build_execution_flow eps fs fws dbs infra))) STAGE_IDS"
    by (rule stage_ids_subseq)
  have "distinct STAGE_IDS" by (simp add: STAGE_IDS_def)
  with s show "distinct (map stage_id (stages (build_execution_flow eps fs fws dbs infra)))"
    by (rule subseq_distinct)
  show "\<forall>c \<in> set (connections (build_execution_flow eps fs fws dbs infra)).
      conn_from c \<in> set (map stage_id (stages (build_execution_flow eps fs fws dbs infra))) \<and>
      conn_to c \<in> set (map stage_id (stages (build_execution_flow eps fs fws dbs infra)))"
    using conns_ok_build [of eps fs fws dbs infra] unfolding conns_ok_def ids_def .
qed

theorem flow_well_formed_witness:
  "map stage_id (stages flow_example) = STAGE_IDS \<and>
   \<lparr>conn_from = ''entry'', conn_to = ''frontend'', conn_label = ''Renders UI''\<rparr>
     \<in> set (connections flow_example) \<and>
   ''entry'' \<in> set (map stage_id (stages flow_example)) \<and>
   ''frontend'' \<in> set (map stage_id (stages flow_example)) \<and>
   distinct (map stage_id (stages flow_example))"
proof -
  have s: "map stage_id (stages flow_example) = STAGE_IDS"
    unfolding flow_example_def by code_simp
  have m: "\<lparr>conn_from = ''entry'', conn_to = ''frontend'', conn_label = ''Renders UI''\<rparr>
     \<in> set (connections flow_example)"
    unfolding flow_example_def by code_simp
  have w: "distinct (map stage_id (stages flow_example)) \<and>
     subseq (map stage_id (stages flow_example)) STAGE_IDS \<and>
     (\<forall>c \<in> set (connections flow_example).
        conn_from c \<in> set (map stage_id (stages flow_example)) \<and>
        conn_to c \<in> set (map stage_id (stages flow_example)))"
    unfolding flow_example_def by (rule flow_well_formed)
  from w m have "conn_from \<lparr>conn_from = ''entry'', conn_to = ''frontend'', conn_label = ''Renders UI''\<rparr>
        \<in> set (map stage_id (stages flow_example)) \<and>
      conn_to \<lparr>conn_from = ''entry'', conn_to = ''frontend'', conn_label = ''Renders UI''\<rparr>
        \<in> set (map stage_id (stages flow_example))"
    by blast
  with w s m show ?thesis by simp
qed

section \<open>Folder classification\<close>

lemma foldl_count_file:
  "foldl count_file cs xs =
     \<lparr>frontend_count = frontend_count cs + ext_count FRONTEND_EXTENSIONS xs,
      backend_count = backend_count cs + ext_count BACKEND_EXTENSIONS xs,
      config_count = config_count cs + ext_count CONFIG_EXTENSIONS xs,
      script_count = script_count cs + ext_count SCRIPT_EXTENSIONS xs,
      has_frontend_patterns = (has_frontend_patterns cs \<or> any_segment FRONTEND_FRAMEWORKS xs),
      has_backend_patterns = (has_backend_patterns cs \<or> any_segment BACKEND_FRAMEWORKS xs)\<rparr>"
proof (induction xs arbitrary: cs)
  case Nil
  show ?case by (simp add: ext_count_def any_segment_def)
next
  case (Cons x xs)
  show ?case
    unfolding foldl_Cons Cons.IH
    by (simp add: count_file_def Let_def ext_count_def any_segment_def)
qed

lemma count_folder_eq:
  "count_folder xs =
     \<lparr>frontend_count = ext_count FRONTEND_EXTENSIONS xs,
      backend_count = ext_count BACKEND_EXTENSIONS xs,
      config_count = ext_count CONFIG_EXTENSIONS xs,
      script_count = ext_count SCRIPT_EXTENSIONS xs,
      has_frontend_patterns = any_segment FRONTEND_FRAMEWORKS xs,
      has_backend_patterns = any_segment BACKEND_FRAMEWORKS xs\<rparr>"
  by (simp add: count_folder_def foldl_count_file)

lemma classify_by_content_eq:
  "classify_by_content folder fs =
     (let xs = files_under folder fs;
          fc = ext_count FRONTEND_EXTENSIONS xs; bc = ext_count BACKEND_EXTENSIONS xs
      in if xs = [] then ''misc''
         else if any_segment FRONTEND_FRAMEWORKS xs \<or> (fc > bc \<and> fc > 2) then ''frontend''
         else if any_segment BACKEND_FRAMEWORKS xs \<or> (bc > fc \<and> bc > 2) then ''backend''
         else if 2 * ext_count CONFIG_EXTENSIONS xs > length xs then ''config''
         else if 2 * ext_count SCRIPT_EXTENSIONS xs > length xs then ''scripts''
         else ''misc'')"
  by (simp add: classify_by_content_def Let_def count_folder_eq)

lemma ext_count_mset: "mset xs = mset ys \<Longrightarrow> ext_count exts xs = ext_count exts ys"
proof -
  assume "mset xs = mset ys"
  then have "mset (filter (\<lambda>f. extension_of (get_field f ''path'') \<in> exts) xs) =
             mset (filter (\<lambda>f. extension_of (get_field f ''path'') \<in> exts) ys)"
    by simp
  then show ?thesis unfolding ext_count_def by (rule mset_eq_length)
qed

lemma any_segment_mset: "mset xs = mset ys \<Longrightarrow> any_segment pats xs = any_segment pats ys"
proof -
  assume "mset xs = mset ys"
  then have "set xs = set ys" by (rule mset_eq_setD)
  then show ?thesis by (simp add: any_segment_def list_ex_iff)
qed

lemma files_under_mset:
  "mset fs = mset fs' \<Longrightarrow> mset (files_under folder fs) = mset (files_under folder fs')"
  by (simp add: files_under_def)

lemma classify_folder_local:
  assumes "mset (files_under folder fs) = mset (files_under folder fs')"
  shows "classify_folder fs folder = classify_folder fs' folder"
proof -
  have l: "length (files_under folder fs) = length (files_under folder fs')"
    using assms by (rule mset_eq_length)
  then have e: "files_under folder fs = [] \<longleftrightarrow> files_under folder fs' = []"
    by (metis length_0_conv)
  have "classify_by_content folder fs = classify_by_content folder fs'"
    unfolding classify_by_content_eq Let_def
    by (simp only: ext_count_mset [OF assms] any_segment_mset [OF assms] l e)
  then show ?thesis
    by (simp add: classify_folder_def Let_def l)
qed

lemma folders_of_mset: "mset fs = mset fs' \<Longrightarrow> folders_of fs = folders_of fs'"
proof -
  assume "mset fs = mset fs'"
  then have "set fs = set fs'" by (rule mset_eq_setD)
  then show ?thesis by (simp add: folders_of_def)
qed

text \<open>
  C6: \<open>classify_folders\<close> returns the same mapping for every permutation of the file
  list, and the classification of a folder depends on the files under that folder only,
  whatever their order and whatever the other files are.
\<close>

theorem classify_folders_permutation:
  "(mset fs = mset fs' \<longrightarrow> classify_folders fs = classify_folders fs') \<and>
   (mset (files_under folder fs) = mset (files_under folder fs') \<longrightarrow>
      classify_folder fs folder = classify_folder fs' folder)"
proof (intro conjI impI)
  assume m: "mset fs = mset fs'"
  have "\<And>folder. classify_folder fs folder = classify_folder fs' folder"
    by (rule classify_folder_local) (rule files_under_mset [OF m])
  then show "classify_folders fs = classify_folders fs'"
    by (simp add: classify_folders_def folders_of_mset [OF m])
next
  assume "mset (files_under folder fs) = mset (files_under folder fs')"
  then show "classify_folder fs folder = classify_folder fs' folder"
    by (rule classify_folder_local)
qed


theorem classify_folders_permutation_witness:
  "mset lib_files = mset (rev lib_files) \<and>
   classify_folders lib_files =
     [(''lib'', \<lparr>role = ''backend'', file_count = 3\<rparr>),
      (''web'', \<lparr>role = ''frontend'', file_count = 1\<rparr>)] \<and>
   classify_folders (rev lib_files) =
     [(''lib'', \<lparr>role = ''backend'', file_count = 3\<rparr>),
      (''web'', \<lparr>role = ''frontend'', file_count = 1\<rparr>)]"
proof -
  have m: "mset lib_files = mset (rev lib_files)" by simp
  have v: "classify_folders lib_files =
     [(''lib'', \<lparr>role = ''backend'', file_count = 3\<rparr>),
      (''web'', \<lparr>role = ''frontend'', file_count = 1\<rparr>)]"
    unfolding lib_files_def by code_simp
  from classify_folders_permutation [of lib_files "rev lib_files"] m
  have "classify_folders lib_files = classify_folders (rev lib_files)" by blast
  with m v show ?thesis by simp
qed

text \<open>
  C7: when no path of the folder has a frontend or backend segment, the content pass says
  \<open>frontend\<close> only if the frontend count exceeds the backend count and 2, \<open>backend\<close> only
  if the backend count exceeds the frontend count and 2, \<open>config\<close> (\<open>scripts\<close>) only if the
  config (script) files are more than half of the folder's files, and \<open>misc\<close> otherwise;
  the content pass decides the role only when the name pass says \<open>misc\<close>.
\<close>

theorem content_fallback_thresholds:
  assumes "\<not> any_segment FRONTEND_FRAMEWORKS (files_under folder fs)"
    and "\<not> any_segment BACKEND_FRAMEWORKS (files_under folder fs)"
  shows
   "(classify_by_content folder fs = ''frontend'' \<longrightarrow>
       ext_count FRONTEND_EXTENSIONS (files_under folder fs)
         > ext_count BACKEND_EXTENSIONS (files_under folder fs) \<and>
       ext_count FRONTEND_EXTENSIONS (files_under folder fs) > 2) \<and>
    (classify_by_content folder fs = ''backend'' \<longrightarrow>
       ext_count BACKEND_EXTENSIONS (files_under folder fs)
         > ext_count FRONTEND_EXTENSIONS (files_under folder fs) \<and>
       ext_count BACKEND_EXTENSIONS (files_under folder fs) > 2) \<and>
    (classify_by_content folder fs = ''config'' \<longrightarrow>
       2 * ext_count CONFIG_EXTENSIONS (files_under folder fs) > length (files_under folder fs)) \<and>
    (classify_by_content folder fs = ''scripts'' \<longrightarrow>
       2 * ext_count SCRIPT_EXTENSIONS (files_under folder fs) > length (files_under folder fs)) \<and>
    (classify_by_content folder fs \<notin> {''frontend'', ''backend'', ''config'', ''scripts''} \<longrightarrow>
       classify_by_content folder fs = ''misc'') \<and>
    (\<not> (ext_count FRONTEND_EXTENSIONS (files_under folder fs)
           > ext_count BACKEND_EXTENSIONS (files_under folder fs) \<and>
         ext_count FRONTEND_EXTENSIONS (files_under folder fs) > 2) \<and>
     \<not> (ext_count BACKEND_EXTENSIONS (files_under folder fs)
           > ext_count FRONTEND_EXTENSIONS (files_under folder fs) \<and>
         ext_count BACKEND_EXTENSIONS (files_under folder fs) > 2) \<and>
     \<not> 2 * ext_count CONFIG_EXTENSIONS (files_under folder fs) > length (files_under folder fs) \<and>
     \<not> 2 * ext_count SCRIPT_EXTENSIONS (files_under folder fs) > length (files_under folder fs) \<longrightarrow>
       classify_by_content folder fs = ''misc'') \<and>
    role (classify_folder fs folder) =
      (if classify_by_name folder = ''misc'' then classify_by_content folder fs
       else classify_by_name folder)"
  using assms
  unfolding classify_by_content_eq Let_def classify_folder_def
  by (simp split: if_splits)

theorem content_fallback_thresholds_witness:
  "\<not> any_segment FRONTEND_FRAMEWORKS (files_under ''lib'' lib_files) \<and>
   \<not> any_segment BACKEND_FRAMEWORKS (files_under ''lib'' lib_files) \<and>
   classify_by_name ''lib'' = ''misc'' \<and>
   classify_by_content ''lib'' lib_files = ''backend'' \<and>
   ext_count BACKEND_EXTENSIONS (files_under ''lib'' lib_files) > 2"
proof -
  have h1: "\<not> any_segment FRONTEND_FRAMEWORKS (files_under ''lib'' lib_files)"
    unfolding lib_files_def by code_simp
  have h2: "\<not> any_segment BACKEND_FRAMEWORKS (files_under ''lib'' lib_files)"
    unfolding lib_files_def by code_simp
  have n: "classify_by_name ''lib'' = ''misc''" by code_simp
  have v: "classify_by_content ''lib'' lib_files = ''backend''"
    unfolding lib_files_def by code_simp
  from content_fallback_thresholds [OF h1 h2] v
  have "ext_count BACKEND_EXTENSIONS (files_under ''lib'' lib_files) > 2" by blast
  with h1 h2 n v show ?thesis by simp
qed

section \<open>Language statistics\<close>

lemma keys_dict_set:
  "map fst (dict_set d k v) = (if k \<in> set (map fst d) then map fst d else map fst d @ [k])"
  by (induction d k v rule: dict_set.induct) auto

lemma map_of_dict_set: "map_of (dict_set d k v) = (map_of d)(k \<mapsto> v)"
  by (induction d k v rule: dict_set.induct) (auto simp: fun_eq_iff)

lemma tally_snoc: "tally (ls @ [x]) = dict_incr (tally ls) x 1"
  by (simp add: tally_def)

lemma keys_tally_snoc:
  "map fst (tally (ls @ [x])) =
     (if x \<in> set (map fst (tally ls)) then map fst (tally ls) else map fst (tally ls) @ [x])"
  by (simp only: tally_snoc dict_incr_def keys_dict_set)

lemma set_keys_tally: "set (map fst (tally ls)) = set ls"
proof (induction ls rule: rev_induct)
  case Nil
  show ?case by (simp add: tally_def)
next
  case (snoc x xs)
  show ?case unfolding keys_tally_snoc using snoc by auto
qed

lemma distinct_keys_tally: "distinct (map fst (tally ls))"
proof (induction ls rule: rev_induct)
  case Nil
  show ?case by (simp add: tally_def)
next
  case (snoc x xs)
  show ?case unfolding keys_tally_snoc using snoc by simp
qed

lemma map_of_tally:
  "map_of (tally ls) l = (if l \<in> set ls then Some (count_list ls l) else None)"
proof (induction ls rule: rev_induct)
  case Nil
  show ?case by (simp add: tally_def)
next
  case (snoc x xs)
  show ?case
    unfolding tally_snoc dict_incr_def map_of_dict_set
    using snoc by (auto simp: dict_get_def count_list_0_iff split: option.splits if_splits)
qed

lemma keys_before_tally:
  "l \<in> set ls \<Longrightarrow>
     set (takeWhile (\<lambda>k. k \<noteq> l) (map fst (tally ls))) = set (takeWhile (\<lambda>k. k \<noteq> l) ls)"
proof (induction ls rule: rev_induct)
  case Nil
  then show ?case by simp
next
  case (snoc x xs)
  show ?case
  proof (cases "l \<in> set xs")
    case True
    then have k: "l \<in> set (map fst (tally xs))" by (simp only: set_keys_tally)
    have a: "takeWhile (\<lambda>k. k \<noteq> l) (xs @ [x]) = takeWhile (\<lambda>k. k \<noteq> l) xs"
      using True by (simp add: takeWhile_append1)
    have b: "takeWhile (\<lambda>k. k \<noteq> l) (map fst (tally xs) @ [x]) =
             takeWhile (\<lambda>k. k \<noteq> l) (map fst (tally xs))"
      using k by (simp only: takeWhile_append1 [OF k] simp_thms)
    show ?thesis
      unfolding keys_tally_snoc a using snoc.IH [OF True] b by simp
  next
    case False
    with snoc.prems have lx: "l = x" by simp
    have nk: "x \<notin> set (map fst (tally xs))" using False lx by (simp only: set_keys_tally) simp
    have "\<forall>y \<in> set xs. y \<noteq> x" using False lx by auto
    then have a: "takeWhile (\<lambda>k. k \<noteq> x) (xs @ [x]) = xs"
      by (simp add: takeWhile_append2)
    have "\<forall>y \<in> set (map fst (tally xs)). y \<noteq> x" using nk by auto
    then have b: "takeWhile (\<lambda>k. k \<noteq> x) (map fst (tally xs) @ [x]) = map fst (tally xs)"
      using takeWhile_append2 [of "map fst (tally xs)" "\<lambda>k. k \<noteq> x" "[x]"] by force
    show ?thesis
      unfolding keys_tally_snoc lx a using nk b set_keys_tally [of xs] by simp
  qed
qed

lemma max_by_props:
  "max_by key best xs \<in> set (best # xs) \<and>
   (\<forall>y \<in> set (best # xs). key y \<le> key (max_by key best xs)) \<and>
   (max_by key best xs = best \<or>
      (key best < key (max_by key best xs) \<and>
       (\<forall>y \<in> set (takeWhile (\<lambda>y. y \<noteq> max_by key best xs) xs). key y < key (max_by key best xs))))"
proof (induction xs arbitrary: best)
  case Nil
  show ?case by simp
next
  case (Cons x xs)
  show ?case
  proof (cases "key best < key x")
    assume gt: "key best < key x"
    then have e: "max_by key best (x # xs) = max_by key x xs" by simp
    let ?r = "max_by key x xs"
    from Cons [of x] have m: "?r \<in> set (x # xs)"
      and le: "\<forall>y \<in> set (x # xs). key y \<le> key ?r"
      and fi: "?r = x \<or> (key x < key ?r \<and>
         (\<forall>y \<in> set (takeWhile (\<lambda>y. y \<noteq> ?r) xs). key y < key ?r))"
      by blast+
    from le have xr: "key x \<le> key ?r" by simp
    with gt have br: "key best < key ?r" by simp
    have "\<forall>y \<in> set (takeWhile (\<lambda>y. y \<noteq> ?r) (x # xs)). key y < key ?r"
      using fi by auto
    with m le br show ?thesis unfolding e by auto
  next
    assume ngt: "\<not> key best < key x"
    then have e: "max_by key best (x # xs) = max_by key best xs" by simp
    let ?r = "max_by key best xs"
    from Cons [of best] have m: "?r \<in> set (best # xs)"
      and le: "\<forall>y \<in> set (best # xs). key y \<le> key ?r"
      and fi: "?r = best \<or> (key best < key ?r \<and>
         (\<forall>y \<in> set (takeWhile (\<lambda>y. y \<noteq> ?r) xs). key y < key ?r))"
      by blast+
    from le have "key best \<le> key ?r" by simp
    with ngt have xr: "key x \<le> key ?r" by simp
    have "?r = best \<or> (key best < key ?r \<and>
         (\<forall>y \<in> set (takeWhile (\<lambda>y. y \<noteq> ?r) (x # xs)). key y < key ?r))"
    proof (cases "?r = best")
      case True
      then show ?thesis by simp
    next
      case False
      with fi have a: "key best < key ?r"
        and b: "\<forall>y \<in> set (takeWhile (\<lambda>y. y \<noteq> ?r) xs). key y < key ?r" by blast+
      from a ngt have "key x < key ?r" by simp
      with a b show ?thesis by auto
    qed
    with m le xr show ?thesis unfolding e by auto
  qed
qed

lemma max_by_first:
  assumes "y \<in> set (takeWhile (\<lambda>y. y \<noteq> max_by key x xs) (x # xs))"
  shows "key y < key (max_by key x xs)"
proof -
  let ?r = "max_by key x xs"
  have fi: "?r = x \<or> (key x < key ?r \<and>
         (\<forall>y \<in> set (takeWhile (\<lambda>y. y \<noteq> ?r) xs). key y < key ?r))"
    using max_by_props [where key = key and best = x and xs = xs] by blast
  show ?thesis
  proof (cases "?r = x")
    case True
    with assms show ?thesis by simp
  next
    case False
    with fi have a: "key x < key ?r"
      and b: "\<forall>y \<in> set (takeWhile (\<lambda>y. y \<noteq> ?r) xs). key y < key ?r" by blast+
    from assms False have "y = x \<or> y \<in> set (takeWhile (\<lambda>y. y \<noteq> ?r) xs)"
      by (auto split: if_splits)
    with a b show ?thesis by blast
  qed
qed


lemma classified_Cons:
  "classified (f # fs) =
     (if detect_language (get_field f ''path'') \<noteq> ''Unknown''
      then [detect_language (get_field f ''path'')] else []) @ classified fs"
  by (simp add: classified_def)

lemma foldl_count_language:
  "language_counts (foldl count_language st fs) =
     foldl (\<lambda>d l. dict_incr d l 1) (language_counts st) (classified fs) \<and>
   total_files (foldl count_language st fs) = total_files st + length (classified fs)"
proof (induction fs arbitrary: st)
  case Nil
  show ?case by (simp add: classified_def)
next
  case (Cons f fs)
  show ?case
    using Cons.IH [of "count_language st f"]
    by (simp add: classified_Cons count_language_def Let_def)
qed

lemma count_languages_eq:
  "language_counts (count_languages fs) = tally (classified fs)"
  "total_files (count_languages fs) = length (classified fs)"
  by (simp_all add: count_languages_def tally_def foldl_count_language)

lemma count_list_classified:
  "l \<noteq> ''Unknown'' \<Longrightarrow> count_list (classified fs) l = file_count_of fs l"
proof (induction fs)
  case Nil
  show ?case by (simp add: classified_def file_count_of_def)
next
  case (Cons f fs)
  then show ?case by (auto simp: classified_Cons file_count_of_def)
qed

lemma classified_known: "l \<in> set (classified fs) \<Longrightarrow> l \<noteq> ''Unknown''"
  by (auto simp: classified_def)

lemma classified_empty:
  "classified fs = [] \<longleftrightarrow> (\<forall>f \<in> set fs. detect_language (get_field f ''path'') = ''Unknown'')"
  by (auto simp: classified_def filter_empty_conv)

lemma primary_language_eq:
  "primary_language (get_repo_language_stats fs) =
     (case tally (classified fs) of [] \<Rightarrow> None | x # xs \<Rightarrow> Some (fst (max_by snd x xs)))"
proof (cases "classified fs = []")
  case True
  then show ?thesis
    by (simp add: get_repo_language_stats_def Let_def count_languages_eq tally_def)
next
  case False
  then show ?thesis
    by (simp add: get_repo_language_stats_def Let_def count_languages_eq)
qed

lemma tally_entry:
  assumes "(l, n) \<in> set (tally ls)"
  shows "l \<in> set ls \<and> n = count_list ls l"
proof -
  from assms have "map_of (tally ls) l = Some n"
    using distinct_keys_tally [of ls] by simp
  then show ?thesis by (simp add: map_of_tally split: if_splits)
qed

lemma tally_has:
  assumes "l \<in> set ls"
  shows "(l, count_list ls l) \<in> set (tally ls)"
proof -
  from assms have "map_of (tally ls) l = Some (count_list ls l)" by (simp add: map_of_tally)
  then show ?thesis by (rule map_of_SomeD)
qed

lemma primary_max:
  assumes p: "primary_language (get_repo_language_stats fs) = Some l"
  shows "l \<in> set (classified fs)"
    and "l' \<noteq> ''Unknown'' \<Longrightarrow> file_count_of fs l' \<le> file_count_of fs l"
    and "l' \<noteq> l \<Longrightarrow> l' \<in> set (classified fs) \<Longrightarrow> file_count_of fs l' = file_count_of fs l
         \<Longrightarrow> l' \<notin> set (takeWhile (\<lambda>x. x \<noteq> l) (classified fs))"
proof -
  let ?ls = "classified fs"
  from p obtain x xs where d: "tally ?ls = x # xs" and l: "l = fst (max_by snd x xs)"
    unfolding primary_language_eq by (auto split: list.splits)
  let ?r = "max_by snd x xs"
  have rin: "?r \<in> set (tally ?ls)"
    and rmax: "\<forall>y \<in> set (tally ?ls). snd y \<le> snd ?r"
    using max_by_props [where key = snd and best = x and xs = xs] unfolding d by blast+
  have r: "?r = (l, snd ?r)" by (simp add: l)
  with rin have "(l, snd ?r) \<in> set (tally ?ls)" by simp
  then have lin: "l \<in> set ?ls" and cnt: "snd ?r = count_list ?ls l"
    by (auto dest: tally_entry)
  show "l \<in> set ?ls" by (rule lin)
  have known: "l \<noteq> ''Unknown''" using lin by (rule classified_known)
  have cl: "count_list ?ls l = file_count_of fs l" using known by (rule count_list_classified)
  show "file_count_of fs l' \<le> file_count_of fs l" if k: "l' \<noteq> ''Unknown''"
  proof (cases "l' \<in> set ?ls")
    case True
    then have "(l', count_list ?ls l') \<in> set (tally ?ls)" by (rule tally_has)
    with rmax have "count_list ?ls l' \<le> snd ?r" by force
    then show ?thesis using cnt cl count_list_classified [OF k, of fs] by simp
  next
    case False
    then have "count_list ?ls l' = 0" by (simp add: count_list_0_iff)
    then show ?thesis using count_list_classified [OF k, of fs] by simp
  qed
  show "l' \<notin> set (takeWhile (\<lambda>x. x \<noteq> l) ?ls)"
    if ne: "l' \<noteq> l" and lin': "l' \<in> set ?ls" and eq: "file_count_of fs l' = file_count_of fs l"
  proof
    assume "l' \<in> set (takeWhile (\<lambda>x. x \<noteq> l) ?ls)"
    then have "l' \<in> set (takeWhile (\<lambda>k. k \<noteq> l) (map fst (tally ?ls)))"
      by (simp only: keys_before_tally [OF lin])
    then have "l' \<in> fst ` set (takeWhile ((\<lambda>k. k \<noteq> l) \<circ> fst) (tally ?ls))"
      by (simp only: takeWhile_map set_map)
    then obtain y where y: "y \<in> set (takeWhile ((\<lambda>k. k \<noteq> l) \<circ> fst) (tally ?ls))"
      and fy: "fst y = l'" by auto
    have same: "takeWhile ((\<lambda>k. k \<noteq> l) \<circ> fst) (tally ?ls) = takeWhile (\<lambda>y. y \<noteq> ?r) (tally ?ls)"
    proof (rule takeWhile_cong [OF refl])
      fix z assume z: "z \<in> set (tally ?ls)"
      have "fst z = l \<longleftrightarrow> z = ?r"
      proof
        assume "fst z = l"
        with z have "(l, snd z) \<in> set (tally ?ls)" by (metis prod.collapse)
        then have "snd z = count_list ?ls l" by (auto dest: tally_entry)
        with cnt \<open>fst z = l\<close> r show "z = ?r" by (metis prod.collapse)
      next
        assume "z = ?r"
        then show "fst z = l" by (simp add: l)
      qed
      then show "((\<lambda>k. k \<noteq> l) \<circ> fst) z = (z \<noteq> ?r)" by simp
    qed
    from y have "y \<in> set (takeWhile (\<lambda>y. y \<noteq> ?r) (tally ?ls))" by (simp only: same)
    then have "y \<in> set (takeWhile (\<lambda>y. y \<noteq> ?r) (x # xs))" by (simp only: d)
    then have lt: "snd y < snd ?r" by (rule max_by_first)
    from y have "y \<in> set (tally ?ls)" by (rule set_takeWhileD [THEN conjunct1])
    with fy have "(l', snd y) \<in> set (tally ?ls)" by (metis prod.collapse)
    then have "snd y = count_list ?ls l'" by (auto dest: tally_entry)
    moreover have "count_list ?ls l' = file_count_of fs l'"
      using lin' by (intro count_list_classified classified_known)
    ultimately show False using lt cnt cl eq by simp
  qed
qed

text \<open>
  C8: \<open>primary_language\<close> is null exactly when no file classifies to a known language;
  otherwise it is a known language of the files whose file count is at least that of every
  other known language, and a language with the same count is first met, in the order of
  the files, after it.
\<close>

theorem primary_language_is_max:
  "(primary_language (get_repo_language_stats fs) = None \<longleftrightarrow>
      (\<forall>f \<in> set fs. detect_language (get_field f ''path'') = ''Unknown'')) \<and>
   (primary_language (get_repo_language_stats fs) = Some l \<longrightarrow>
      l \<noteq> ''Unknown'' \<and> l \<in> set (classified fs) \<and>
      (\<forall>l'. l' \<noteq> ''Unknown'' \<longrightarrow> file_count_of fs l' \<le> file_count_of fs l) \<and>
      (\<forall>l'. l' \<noteq> l \<and> l' \<in> set (classified fs) \<and> file_count_of fs l' = file_count_of fs l \<longrightarrow>
            l' \<notin> set (takeWhile (\<lambda>x. x \<noteq> l) (classified fs))))"
proof (intro conjI impI allI)
  have "tally (classified fs) = [] \<longleftrightarrow> classified fs = []"
    using set_keys_tally [of "classified fs"] by (metis list.map_disc_iff set_empty)
  then show "primary_language (get_repo_language_stats fs) = None \<longleftrightarrow>
      (\<forall>f \<in> set fs. detect_language (get_field f ''path'') = ''Unknown'')"
    unfolding primary_language_eq classified_empty [symmetric] by (auto split: list.splits)
next
  assume p: "primary_language (get_repo_language_stats fs) = Some l"
  show "l \<in> set (classified fs)" by (rule primary_max(1) [OF p])
  then show "l \<noteq> ''Unknown''" by (rule classified_known)
next
  fix l' assume p: "primary_language (get_repo_language_stats fs) = Some l" and "l' \<noteq> ''Unknown''"
  then show "file_count_of fs l' \<le> file_count_of fs l" by (rule primary_max(2))
next
  fix l' assume p: "primary_language (get_repo_language_stats fs) = Some l"
    and "l' \<noteq> l \<and> l' \<in> set (classified fs) \<and> file_count_of fs l' = file_count_of fs l"
  then show "l' \<notin> set (takeWhile (\<lambda>x. x \<noteq> l) (classified fs))"
    using primary_max(3) [OF p] by blast
qed

theorem primary_language_is_max_witness:
  "primary_language (get_repo_language_stats lang_files) = Some ''Python'' \<and>
   classified lang_files = [''Python'', ''JavaScript'', ''JavaScript'', ''Python'', ''Go''] \<and>
   file_count_of lang_files ''JavaScript'' = file_count_of lang_files ''Python'' \<and>
   file_count_of lang_files ''Go'' \<le> file_count_of lang_files ''Python'' \<and>
   ''JavaScript'' \<notin> set (takeWhile (\<lambda>x. x \<noteq> ''Python'') (classified lang_files))"
proof -
  have p: "primary_language (get_repo_language_stats lang_files) = Some ''Python''"
    unfolding lang_files_def by code_simp
  have c: "classified lang_files = [''Python'', ''JavaScript'', ''JavaScript'', ''Python'', ''Go'']"
    unfolding lang_files_def by code_simp
  have e: "file_count_of lang_files ''JavaScript'' = file_count_of lang_files ''Python''"
    unfolding lang_files_def by code_simp
  from primary_language_is_max [of lang_files "''Python''"] p
  have "(\<forall>l'. l' \<noteq> ''Unknown'' \<longrightarrow> file_count_of lang_files l' \<le> file_count_of lang_files ''Python'')"
    and "(\<forall>l'. l' \<noteq> ''Python'' \<and> l' \<in> set (classified lang_files) \<and>
              file_count_of lang_files l' = file_count_of lang_files ''Python'' \<longrightarrow>
            l' \<notin> set (takeWhile (\<lambda>x. x \<noteq> ''Python'') (classified lang_files)))"
    by blast+
  then have "file_count_of lang_files ''Go'' \<le> file_count_of lang_files ''Python''"
    and "''JavaScript'' \<notin> set (takeWhile (\<lambda>x. x \<noteq> ''Python'') (classified lang_files))"
    using e c by (simp, simp)
  with p c e show ?thesis by simp
qed

section \<open>Entry points\<close>

lemma dict_of_snoc:
  "dict_of key val (xs @ [x]) = dict_set (dict_of key val xs) (key x) (val x)"
  by (simp add: dict_of_def)

lemma keys_dict_of: "map fst (dict_of key val xs) = rev (remdups (rev (map key xs)))"
proof (induction xs rule: rev_induct)
  case Nil
  show ?case by (simp add: dict_of_def)
next
  case (snoc x xs)
  show ?case
    unfolding dict_of_snoc keys_dict_set snoc.IH by simp
qed

lemma distinct_keys_dict_of: "distinct (map fst (dict_of key val xs))"
  by (simp add: keys_dict_of)

lemma map_of_dict_of:
  "map_of (dict_of key (\<lambda>f. f) xs) k =
     (if k \<in> key ` set xs then Some (last (filter (\<lambda>y. key y = k) xs)) else None)"
proof (induction xs rule: rev_induct)
  case Nil
  show ?case by (simp add: dict_of_def)
next
  case (snoc x xs)
  show ?case
    unfolding dict_of_snoc map_of_dict_set using snoc.IH by auto
qed

lemma dedup_by_paths: "map key (dedup_by key xs) = rev (remdups (rev (map key xs)))"
proof -
  have "\<forall>p \<in> set (dict_of key (\<lambda>f. f) xs). key (snd p) = fst p"
  proof
    fix p assume "p \<in> set (dict_of key (\<lambda>f. f) xs)"
    then have "map_of (dict_of key (\<lambda>f. f) xs) (fst p) = Some (snd p)"
      using distinct_keys_dict_of [of key "\<lambda>f. f" xs] by simp
    then have e: "fst p \<in> key ` set xs" and "snd p = last (filter (\<lambda>y. key y = fst p) xs)"
      by (auto simp: map_of_dict_of split: if_splits)
    moreover from e have "filter (\<lambda>y. key y = fst p) xs \<noteq> []"
      by (auto simp: filter_empty_conv)
    ultimately have "snd p \<in> set (filter (\<lambda>y. key y = fst p) xs)" by (metis last_in_set)
    then show "key (snd p) = fst p" by simp
  qed
  then have "map key (dedup_by key xs) = map fst (dict_of key (\<lambda>f. f) xs)"
    by (simp add: dedup_by_def)
  then show ?thesis by (simp only: keys_dict_of)
qed

lemma dedup_by_last:
  assumes "e \<in> set (dedup_by key xs)"
  shows "e = last (filter (\<lambda>y. key y = key e) xs) \<and> e \<in> set xs"
proof -
  from assms obtain k where "(k, e) \<in> set (dict_of key (\<lambda>f. f) xs)"
    by (auto simp: dedup_by_def)
  then have "map_of (dict_of key (\<lambda>f. f) xs) k = Some e"
    using distinct_keys_dict_of [of key "\<lambda>f. f" xs] by simp
  then have k: "k \<in> key ` set xs" and e: "e = last (filter (\<lambda>y. key y = k) xs)"
    by (auto simp: map_of_dict_of split: if_splits)
  from k have "filter (\<lambda>y. key y = k) xs \<noteq> []" by (auto simp: filter_empty_conv)
  with e have "e \<in> set (filter (\<lambda>y. key y = k) xs)" by (metis last_in_set)
  then have "key e = k" and "e \<in> set xs" by simp_all
  with e show ?thesis by simp
qed

lemma dedup_by_first:
  assumes u: "\<forall>a \<in> set xs. \<forall>b \<in> set xs. key a = key b \<longrightarrow> a = b"
    and e: "e \<in> set (dedup_by key xs)"
  shows "e = hd (filter (\<lambda>y. key y = key e) xs)"
proof -
  from dedup_by_last [OF e] have ex: "e \<in> set xs" by simp
  then have "filter (\<lambda>y. key y = key e) xs \<noteq> []" by (auto simp: filter_empty_conv)
  then have "hd (filter (\<lambda>y. key y = key e) xs) \<in> set (filter (\<lambda>y. key y = key e) xs)"
    by (rule hd_in_set)
  then have "hd (filter (\<lambda>y. key y = key e) xs) \<in> set xs"
    and "key (hd (filter (\<lambda>y. key y = key e) xs)) = key e" by simp_all
  with u ex show ?thesis by metis
qed


lemma foldl_collect:
  "foldl (\<lambda>result file_obj.
              \<lparr>application_files = application_files result @ application_candidates file_obj,
               framework_entrypoints = framework_entrypoints result @ framework_candidates file_obj,
               docker_entrypoints = docker_entrypoints result @ docker_candidates file_obj\<rparr>)
     \<lparr>application_files = a, framework_entrypoints = w, docker_entrypoints = d\<rparr> fs =
   \<lparr>application_files = a @ concat (map application_candidates fs),
    framework_entrypoints = w @ concat (map framework_candidates fs),
    docker_entrypoints = d @ concat (map docker_candidates fs)\<rparr>"
  by (induction fs arbitrary: a w d) simp_all

lemma collect_entrypoints_eq:
  "collect_entrypoints fs =
     \<lparr>application_files = concat (map application_candidates fs),
      framework_entrypoints = concat (map framework_candidates fs),
      docker_entrypoints = concat (map docker_candidates fs)\<rparr>"
  unfolding collect_entrypoints_def foldl_collect by simp

lemma find_entrypoints_eq:
  "find_entrypoints fs =
     \<lparr>application_files = dedup_by app_path (concat (map application_candidates fs)),
      framework_entrypoints = dedup_by fw_path (concat (map framework_candidates fs)),
      docker_entrypoints = concat (map docker_candidates fs)\<rparr>"
  by (simp add: find_entrypoints_def Let_def collect_entrypoints_eq)

lemma table_unique:
  "distinct (concat (map snd T)) \<Longrightarrow> p \<in> set T \<Longrightarrow> q \<in> set T \<Longrightarrow>
     x \<in> set (snd p) \<Longrightarrow> x \<in> set (snd q) \<Longrightarrow> p = q"
  by (induction T) auto

lemma entrypoint_files_distinct: "distinct (concat (map snd ENTRYPOINT_FILES))"
  by code_simp

lemma application_candidate_form:
  assumes "a \<in> set (application_candidates f)"
  shows "\<exists>l names. (l, names) \<in> set ENTRYPOINT_FILES \<and>
           file_name (get_field f ''path'') \<in> set names \<and>
           a = \<lparr>app_path = get_field f ''path'', app_type = l,
                app_filename = file_name (get_field f ''path'')\<rparr>"
  using assms by (auto simp: application_candidates_def Let_def)

lemma application_candidates_unique:
  assumes "a \<in> set (concat (map application_candidates fs))"
    and "b \<in> set (concat (map application_candidates fs))"
    and "app_path a = app_path b"
  shows "a = b"
proof -
  from assms(1) obtain f where "a \<in> set (application_candidates f)" by auto
  from application_candidate_form [OF this] obtain l names where
    a: "(l, names) \<in> set ENTRYPOINT_FILES" "file_name (get_field f ''path'') \<in> set names"
       "a = \<lparr>app_path = get_field f ''path'', app_type = l,
             app_filename = file_name (get_field f ''path'')\<rparr>" by blast
  from assms(2) obtain g where "b \<in> set (application_candidates g)" by auto
  from application_candidate_form [OF this] obtain l' names' where
    b: "(l', names') \<in> set ENTRYPOINT_FILES" "file_name (get_field g ''path'') \<in> set names'"
       "b = \<lparr>app_path = get_field g ''path'', app_type = l',
             app_filename = file_name (get_field g ''path'')\<rparr>" by blast
  from assms(3) a(3) b(3) have p: "get_field f ''path'' = get_field g ''path''" by simp
  with a(2) b(2) have "(l, names) = (l', names')"
    using table_unique [OF entrypoint_files_distinct a(1) b(1)] by simp
  with p a(3) b(3) show ?thesis by simp
qed

lemma not_both_directives: "\<not> (startswith line ''CMD'' \<and> startswith line ''ENTRYPOINT'')"
  by (cases line) (auto simp: startswith_def)

lemma extract_docker_entrypoints_eq: "extract_docker_entrypoints content = directive_lines content"
proof -
  have "concat (map (\<lambda>l. let line = strip l
                       in (if startswith line ''CMD'' then [line] else []) @
                          (if startswith line ''ENTRYPOINT'' then [line] else [])) ls) =
        filter (\<lambda>line. startswith line ''CMD'' \<or> startswith line ''ENTRYPOINT'') (map strip ls)"
    for ls
    using not_both_directives by (induction ls) (auto simp: Let_def)
  then show ?thesis by (simp only: extract_docker_entrypoints_def directive_lines_def)
qed

text \<open>
  C2, as the code has it: \<open>application_files\<close> and \<open>framework_entrypoints\<close> hold at most
  one record per path, the paths in the order in which they are first met (\<open>rev\<close> of
  \<open>remdups\<close> of \<open>rev\<close> keeps the first occurrence of each).  In \<open>application_files\<close> the
  record kept is the first candidate of its path, all candidates of a path being equal; in
  \<open>framework_entrypoints\<close> it is the last candidate of its path.  \<open>docker_entrypoints\<close>
  keeps every candidate, one per directive line of a Dockerfile.
\<close>

theorem entrypoints_dedup:
  "distinct (map app_path (application_files (find_entrypoints fs))) \<and>
   distinct (map fw_path (framework_entrypoints (find_entrypoints fs))) \<and>
   map app_path (application_files (find_entrypoints fs)) =
     rev (remdups (rev (map app_path (application_files (collect_entrypoints fs))))) \<and>
   map fw_path (framework_entrypoints (find_entrypoints fs)) =
     rev (remdups (rev (map fw_path (framework_entrypoints (collect_entrypoints fs))))) \<and>
   (\<forall>e \<in> set (application_files (find_entrypoints fs)).
      e = hd (filter (\<lambda>y. app_path y = app_path e) (application_files (collect_entrypoints fs)))) \<and>
   (\<forall>e \<in> set (framework_entrypoints (find_entrypoints fs)).
      e = last (filter (\<lambda>y. fw_path y = fw_path e) (framework_entrypoints (collect_entrypoints fs)))) \<and>
   docker_entrypoints (find_entrypoints fs) = concat (map docker_candidates fs) \<and>
   (file_name p = ''Dockerfile'' \<or> py_in ''Dockerfile'' p \<longrightarrow>
      docker_candidates (mk_file p c) =
        map (\<lambda>line. \<lparr>docker_path = p, docker_command = line\<rparr>) (directive_lines c))"
proof (intro conjI ballI impI)
  show "distinct (map app_path (application_files (find_entrypoints fs)))"
    by (simp add: find_entrypoints_eq dedup_by_paths)
  show "distinct (map fw_path (framework_entrypoints (find_entrypoints fs)))"
    by (simp add: find_entrypoints_eq dedup_by_paths)
  show "map app_path (application_files (find_entrypoints fs)) =
     rev (remdups (rev (map app_path (application_files (collect_entrypoints fs)))))"
    by (simp only: find_entrypoints_eq collect_entrypoints_eq entrypoints.simps dedup_by_paths)
  show "map fw_path (framework_entrypoints (find_entrypoints fs)) =
     rev (remdups (rev (map fw_path (framework_entrypoints (collect_entrypoints fs)))))"
    by (simp only: find_entrypoints_eq collect_entrypoints_eq entrypoints.simps dedup_by_paths)
  show "docker_entrypoints (find_entrypoints fs) = concat (map docker_candidates fs)"
    by (simp add: find_entrypoints_eq)
next
  fix e assume "e \<in> set (application_files (find_entrypoints fs))"
  then have e: "e \<in> set (dedup_by app_path (concat (map application_candidates fs)))"
    by (simp add: find_entrypoints_eq)
  have "\<forall>a \<in> set (concat (map application_candidates fs)).
        \<forall>b \<in> set (concat (map application_candidates fs)). app_path a = app_path b \<longrightarrow> a = b"
    using application_candidates_unique by blast
  from dedup_by_first [OF this e]
  show "e = hd (filter (\<lambda>y. app_path y = app_path e) (application_files (collect_entrypoints fs)))"
    by (simp only: collect_entrypoints_eq entrypoints.simps)
next
  fix e assume "e \<in> set (framework_entrypoints (find_entrypoints fs))"
  then have "e \<in> set (dedup_by fw_path (concat (map framework_candidates fs)))"
    by (simp add: find_entrypoints_eq)
  from dedup_by_last [OF this]
  show "e = last (filter (\<lambda>y. fw_path y = fw_path e) (framework_entrypoints (collect_entrypoints fs)))"
    by (simp only: collect_entrypoints_eq entrypoints.simps)
next
  assume "file_name p = ''Dockerfile'' \<or> py_in ''Dockerfile'' p"
  then show "docker_candidates (mk_file p c) =
        map (\<lambda>line. \<lparr>docker_path = p, docker_command = line\<rparr>) (directive_lines c)"
    by (simp add: docker_candidates_def Let_def get_field_mk_file extract_docker_entrypoints_eq)
qed


text \<open>
  C2 as stated fails: a file that matches the patterns of Flask and of FastAPI has the
  Flask record as its first candidate, and the record kept is the FastAPI one.
\<close>

theorem entrypoints_keep_first_counterexample:
  "framework_entrypoints (collect_entrypoints entry_example) =
     [\<lparr>fw_path = ''srv/app.py'', fw_framework = ''Flask''\<rparr>,
      \<lparr>fw_path = ''srv/app.py'', fw_framework = ''FastAPI''\<rparr>] \<and>
   framework_entrypoints (find_entrypoints entry_example) =
     [\<lparr>fw_path = ''srv/app.py'', fw_framework = ''FastAPI''\<rparr>] \<and>
   hd (framework_entrypoints (find_entrypoints entry_example)) \<noteq>
     hd (filter (\<lambda>y. fw_path y = ''srv/app.py'')
           (framework_entrypoints (collect_entrypoints entry_example)))"
  unfolding entry_example_def by code_simp

theorem entrypoints_dedup_witness:
  "application_files (find_entrypoints entry_example) =
     [\<lparr>app_path = ''srv/app.py'', app_type = ''Python'', app_filename = ''app.py''\<rparr>] \<and>
   length (application_files (collect_entrypoints entry_example)) = 2 \<and>
   \<lparr>fw_path = ''srv/app.py'', fw_framework = ''FastAPI''\<rparr> =
     last (filter (\<lambda>y. fw_path y = ''srv/app.py'')
             (framework_entrypoints (collect_entrypoints entry_example))) \<and>
   docker_entrypoints (find_entrypoints entry_example) =
     [\<lparr>docker_path = ''Dockerfile'', docker_command = ''ENTRYPOINT python''\<rparr>,
      \<lparr>docker_path = ''Dockerfile'', docker_command = ''CMD app.py''\<rparr>] \<and>
   distinct (map fw_path (framework_entrypoints (find_entrypoints entry_example)))"
proof -
  have a: "application_files (find_entrypoints entry_example) =
     [\<lparr>app_path = ''srv/app.py'', app_type = ''Python'', app_filename = ''app.py''\<rparr>]"
    unfolding entry_example_def by code_simp
  have n: "length (application_files (collect_entrypoints entry_example)) = 2"
    unfolding entry_example_def by code_simp
  have w: "\<lparr>fw_path = ''srv/app.py'', fw_framework = ''FastAPI''\<rparr>
     \<in> set (framework_entrypoints (find_entrypoints entry_example))"
    unfolding entry_example_def by code_simp
  have d: "docker_entrypoints (find_entrypoints entry_example) =
     [\<lparr>docker_path = ''Dockerfile'', docker_command = ''ENTRYPOINT python''\<rparr>,
      \<lparr>docker_path = ''Dockerfile'', docker_command = ''CMD app.py''\<rparr>]"
    unfolding entry_example_def by code_simp
  note t = entrypoints_dedup [of entry_example "''Dockerfile''" "''x''"]
  from t have "\<forall>e \<in> set (framework_entrypoints (find_entrypoints entry_example)).
      e = last (filter (\<lambda>y. fw_path y = fw_path e)
                  (framework_entrypoints (collect_entrypoints entry_example)))"
    by blast
  with w have l: "\<lparr>fw_path = ''srv/app.py'', fw_framework = ''FastAPI''\<rparr> =
     last (filter (\<lambda>y. fw_path y = fw_path \<lparr>fw_path = ''srv/app.py'', fw_framework = ''FastAPI''\<rparr>)
             (framework_entrypoints (collect_entrypoints entry_example)))"
    by blast
  from t have "distinct (map fw_path (framework_entrypoints (find_entrypoints entry_example)))"
    by blast
  with a n l d show ?thesis by simp
qed

section \<open>The Flask scenario\<close>

lemma py_in_iff: "py_in sub s \<longleftrightarrow> (\<exists>pre post. s = pre @ sub @ post)"
proof (induction s)
  case Nil
  show ?case by auto
next
  case (Cons c cs)
  show ?case
  proof
    assume "py_in sub (c # cs)"
    then consider "prefix sub (c # cs)" | "py_in sub cs" by auto
    then show "\<exists>pre post. c # cs = pre @ sub @ post"
    proof cases
      case 1
      then obtain post where "c # cs = sub @ post" by (auto simp: prefix_def)
      then have "c # cs = [] @ sub @ post" by simp
      then show ?thesis by blast
    next
      case 2
      with Cons obtain pre post where "cs = pre @ sub @ post" by blast
      then have "c # cs = (c # pre) @ sub @ post" by simp
      then show ?thesis by blast
    qed
  next
    assume "\<exists>pre post. c # cs = pre @ sub @ post"
    then obtain pre post where e: "c # cs = pre @ sub @ post" by blast
    show "py_in sub (c # cs)"
    proof (cases pre)
      case Nil
      with e have "prefix sub (c # cs)" by (simp add: prefix_def)
      then show ?thesis by simp
    next
      case (Cons a pre')
      with e have "cs = pre' @ sub @ post" by simp
      with Cons.IH have "py_in sub cs" by blast
      then show ?thesis by simp
    qed
  qed
qed

lemma lower_append: "lower (a @ b) = lower a @ lower b"
  by (simp add: lower_def)

lemma lower_flask_import: "lower ''from flask import Flask'' = ''from '' @ ''flask'' @ '' import flask''"
  by code_simp

lemma lower_flask: "lower ''flask'' = ''flask''"
  by code_simp

lemma flask_import_lower:
  assumes "py_in ''from flask import Flask'' c"
  shows "py_in ''flask'' (lower c)"
proof -
  from assms obtain pre post where "c = pre @ ''from flask import Flask'' @ post"
    unfolding py_in_iff by blast
  then have "lower c = (lower pre @ ''from '') @ ''flask'' @ ('' import flask'' @ lower post)"
    by (simp only: lower_append lower_flask_import append_assoc)
  then show ?thesis unfolding py_in_iff by blast
qed

lemma flask_fires:
  assumes "py_in ''from flask import Flask'' c"
  shows "framework_fires
           \<lparr>pat_imports = Some [''flask'', ''from flask''],
            pat_files = Some [''app.py'', ''wsgi.py''],
            pat_dependencies = Some [''flask'']\<rparr> (mk_file p c # rest)"
  using flask_import_lower [OF assms]
  by (simp add: Let_def get_field_mk_file check_imports_def lower_flask)

lemma detect_frameworks_mem:
  assumes "(n, pats) \<in> set FRAMEWORK_PATTERNS" and "framework_fires pats fs"
  shows "n \<in> set (detect_frameworks fs)"
proof -
  from assms have "n \<in> set (map fst (filter (\<lambda>(framework, pats). framework_fires pats fs)
      FRAMEWORK_PATTERNS))"
    by force
  then show ?thesis by (simp add: detect_frameworks_def)
qed

lemma flask_detected:
  assumes "py_in ''from flask import Flask'' c"
  shows "''Flask'' \<in> set (detect_frameworks (flask_scenario c r))"
proof -
  have "(''Flask'', \<lparr>pat_imports = Some [''flask'', ''from flask''],
            pat_files = Some [''app.py'', ''wsgi.py''],
            pat_dependencies = Some [''flask'']\<rparr>) \<in> set FRAMEWORK_PATTERNS"
    by (simp add: FRAMEWORK_PATTERNS_def)
  then show ?thesis
    unfolding flask_scenario_def
    by (rule detect_frameworks_mem) (rule flask_fires [OF assms])
qed


lemma file_name_scenario:
  "file_name ''src/app.py'' = ''app.py''"
  "file_name ''requirements.txt'' = ''requirements.txt''"
  by code_simp+

lemma entry_files_scenario:
  "filter (\<lambda>(language, entrypoint_files). ''app.py'' \<in> set entrypoint_files) ENTRYPOINT_FILES =
     [(''Python'', [''main.py'', ''app.py'', ''wsgi.py'', ''asgi.py'', ''run.py'', ''__main__.py''])]"
  "filter (\<lambda>(language, entrypoint_files). ''requirements.txt'' \<in> set entrypoint_files)
     ENTRYPOINT_FILES = []"
  by code_simp+

lemma application_candidates_scenario:
  "application_candidates (mk_file ''src/app.py'' c) =
     [\<lparr>app_path = ''src/app.py'', app_type = ''Python'', app_filename = ''app.py''\<rparr>]"
  "application_candidates (mk_file ''requirements.txt'' r) = []"
  by (simp_all add: application_candidates_def Let_def get_field_mk_file file_name_scenario
      entry_files_scenario)

lemma framework_names:
  "map fst FRAMEWORK_ENTRYPOINT_PATTERNS = [''Flask'', ''FastAPI'', ''Django'', ''Express'', ''NestJS'']"
  by (simp add: FRAMEWORK_ENTRYPOINT_PATTERNS_def)

lemma framework_candidates_path:
  "e \<in> set (framework_candidates (mk_file p c)) \<Longrightarrow> fw_path e = p"
  by (auto simp: framework_candidates_def Let_def get_field_mk_file)

lemma dedup_by_mem:
  "e \<in> set (dedup_by key xs) \<longleftrightarrow>
     filter (\<lambda>y. key y = key e) xs \<noteq> [] \<and> e = last (filter (\<lambda>y. key y = key e) xs)"
proof
  assume "e \<in> set (dedup_by key xs)"
  from dedup_by_last [OF this]
  show "filter (\<lambda>y. key y = key e) xs \<noteq> [] \<and> e = last (filter (\<lambda>y. key y = key e) xs)"
    by (auto simp: filter_empty_conv)
next
  assume a: "filter (\<lambda>y. key y = key e) xs \<noteq> [] \<and> e = last (filter (\<lambda>y. key y = key e) xs)"
  then obtain x where x: "x \<in> set xs" and kx: "key x = key e"
    by (auto simp: filter_empty_conv)
  from x have "key x \<in> set (map key xs)" by simp
  then have "key e \<in> set (map key xs)" by (simp only: kx)
  then have "key e \<in> set (map key (dedup_by key xs))" by (simp only: dedup_by_paths) simp
  then obtain e' where e': "e' \<in> set (dedup_by key xs)" and k: "key e' = key e" by auto
  from dedup_by_last [OF e'] k a have "e' = e" by simp
  with e' show "e \<in> set (dedup_by key xs)" by simp
qed

lemma last_filter_five:
  assumes "distinct [a, b, c, d, e]"
  shows "filter P [a, b, c, d, e] \<noteq> [] \<and> last (filter P [a, b, c, d, e]) = a \<longleftrightarrow>
     P a \<and> \<not> P b \<and> \<not> P c \<and> \<not> P d \<and> \<not> P e"
  using assms by auto

lemma flask_entry_iff:
  "\<lparr>fw_path = ''src/app.py'', fw_framework = ''Flask''\<rparr>
     \<in> set (framework_entrypoints (find_entrypoints (flask_scenario c r))) \<longleftrightarrow>
   check_framework_patterns c ''Flask'' \<and> \<not> check_framework_patterns c ''FastAPI'' \<and>
   \<not> check_framework_patterns c ''Django'' \<and> \<not> check_framework_patterns c ''Express'' \<and>
   \<not> check_framework_patterns c ''NestJS''"
proof -
  let ?A = "framework_candidates (mk_file ''src/app.py'' c)"
  let ?B = "framework_candidates (mk_file ''requirements.txt'' r)"
  let ?P = "check_framework_patterns c"
  let ?N = "[''Flask'', ''FastAPI'', ''Django'', ''Express'', ''NestJS'']"
  have fa: "filter (\<lambda>y. fw_path y = ''src/app.py'') ?A = ?A"
    by (simp add: filter_id_conv framework_candidates_path)
  have fb: "filter (\<lambda>y. fw_path y = ''src/app.py'') ?B = []"
    by (auto simp: filter_empty_conv dest: framework_candidates_path)
  have A: "?A = map (\<lambda>framework. \<lparr>fw_path = ''src/app.py'', fw_framework = framework\<rparr>)
      (filter ?P ?N)"
    by (simp only: framework_candidates_def Let_def get_field_mk_file framework_names)
  have inj: "last (map (\<lambda>framework. \<lparr>fw_path = ''src/app.py'', fw_framework = framework\<rparr>) xs) =
      \<lparr>fw_path = ''src/app.py'', fw_framework = ''Flask''\<rparr> \<longleftrightarrow> last xs = ''Flask''"
    if "xs \<noteq> []" for xs
    using that by (simp add: last_map)
  have "\<lparr>fw_path = ''src/app.py'', fw_framework = ''Flask''\<rparr>
     \<in> set (framework_entrypoints (find_entrypoints (flask_scenario c r))) \<longleftrightarrow>
     ?A \<noteq> [] \<and> \<lparr>fw_path = ''src/app.py'', fw_framework = ''Flask''\<rparr> = last ?A"
    by (simp add: find_entrypoints_eq flask_scenario_def dedup_by_mem fa fb)
  also have "\<dots> \<longleftrightarrow> filter ?P ?N \<noteq> [] \<and> last (filter ?P ?N) = ''Flask''"
    unfolding A using inj by auto
  also have "\<dots> \<longleftrightarrow> ?P ''Flask'' \<and> \<not> ?P ''FastAPI'' \<and> \<not> ?P ''Django'' \<and> \<not> ?P ''Express'' \<and>
      \<not> ?P ''NestJS''"
    by (rule last_filter_five) simp
  finally show ?thesis .
qed

lemma app_entry_scenario:
  "application_files (find_entrypoints (flask_scenario c r)) =
     [\<lparr>app_path = ''src/app.py'', app_type = ''Python'', app_filename = ''app.py''\<rparr>]"
  by (simp add: find_entrypoints_eq flask_scenario_def application_candidates_scenario
      dedup_by_def dict_of_def)

text \<open>
  C1, as the code has it: for \<open>src/app.py\<close> with a content that contains
  \<open>from flask import Flask\<close> and \<open>app.run()\<close>, and \<open>requirements.txt\<close> with a content that
  contains \<open>flask==2.0\<close>, \<open>detect_frameworks\<close> lists \<open>Flask\<close> and \<open>find_entrypoints\<close> lists
  \<open>src/app.py\<close> as an application file; \<open>src/app.py\<close> is in \<open>framework_entrypoints\<close> with
  \<open>Flask\<close> exactly when its content matches one of the three Flask patterns of the entry
  point finder and no pattern of the four frameworks that follow Flask in the table.
\<close>

theorem flask_scenario_detected:
  assumes "py_in ''from flask import Flask'' c" and "py_in ''app.run()'' c"
    and "py_in ''flask==2.0'' r"
  shows "''Flask'' \<in> set (detect_frameworks (flask_scenario c r)) \<and>
    application_files (find_entrypoints (flask_scenario c r)) =
      [\<lparr>app_path = ''src/app.py'', app_type = ''Python'', app_filename = ''app.py''\<rparr>] \<and>
    (\<lparr>fw_path = ''src/app.py'', fw_framework = ''Flask''\<rparr>
       \<in> set (framework_entrypoints (find_entrypoints (flask_scenario c r))) \<longleftrightarrow>
     check_framework_patterns c ''Flask'' \<and> \<not> check_framework_patterns c ''FastAPI'' \<and>
     \<not> check_framework_patterns c ''Django'' \<and> \<not> check_framework_patterns c ''Express'' \<and>
     \<not> check_framework_patterns c ''NestJS'')"
  using flask_detected [OF assms(1)] app_entry_scenario flask_entry_iff by blast

text \<open>
  C1 as stated fails: the two named lines alone match none of the Flask patterns, and
  \<open>framework_entrypoints\<close> is empty.
\<close>

theorem flask_scenario_counterexample:
  "py_in ''from flask import Flask'' flask_minimal \<and> py_in ''app.run()'' flask_minimal \<and>
   py_in ''flask==2.0'' ''flask==2.0'' \<and>
   detect_frameworks (flask_scenario flask_minimal ''flask==2.0'') = [''Flask''] \<and>
   framework_entrypoints (find_entrypoints (flask_scenario flask_minimal ''flask==2.0'')) = []"
  unfolding flask_minimal_def flask_scenario_def by code_simp

theorem flask_scenario_detected_witness:
  "py_in ''from flask import Flask'' flask_app \<and> py_in ''app.run()'' flask_app \<and>
   py_in ''flask==2.0'' ''flask==2.0'' \<and>
   check_framework_patterns flask_app ''Flask'' \<and>
   ''Flask'' \<in> set (detect_frameworks (flask_scenario flask_app ''flask==2.0'')) \<and>
   \<lparr>fw_path = ''src/app.py'', fw_framework = ''Flask''\<rparr>
     \<in> set (framework_entrypoints (find_entrypoints (flask_scenario flask_app ''flask==2.0'')))"
proof -
  have h1: "py_in ''from flask import Flask'' flask_app" unfolding flask_app_def by code_simp
  have h2: "py_in ''app.run()'' flask_app" unfolding flask_app_def by code_simp
  have h3: "py_in ''flask==2.0'' ''flask==2.0''" by code_simp
  have p: "check_framework_patterns flask_app ''Flask'' \<and>
     \<not> check_framework_patterns flask_app ''FastAPI'' \<and>
     \<not> check_framework_patterns flask_app ''Django'' \<and>
     \<not> check_framework_patterns flask_app ''Express'' \<and>
     \<not> check_framework_patterns flask_app ''NestJS''"
    unfolding flask_app_def by code_simp
  from flask_scenario_detected [OF h1 h2 h3] p h1 h2 h3 show ?thesis by blast
qed

end
